theory Spec2Isabelle
  imports Main "HOL-Library.Sublist"
begin

section \<open>Visitor and key record store (server.js)\<close>

text \<open>
  The development embeds the record store of the Express server: the validators
  \<open>validateVisitorData\<close> and \<open>validateKeyData\<close>, the loaders and savers of the two
  collection files, and the handlers for create, timeout/return, delete-with-adjust and
  stats. The visitor and the key flow are written twice in the source with the same
  shape; the embedding takes the flow as a parameter (\<open>kind\<close>) and branches on it where
  the two handlers differ.

  A request body and a stored record are JavaScript objects read from JSON by
  \<open>express.json\<close> and \<open>JSON.parse\<close>: maps from field names to JSON values of any kind.
  A body that is a JSON array has none of the named fields and behaves as the empty
  object. A JavaScript string is modelled as a list of code units below 256. Calls to
  the logger are not part of the modelled state.
\<close>

subsection \<open>JavaScript values and string primitives\<close>

datatype js_error = Error string | TypeError string | SystemError string

fun message :: "js_error \<Rightarrow> string" where
  "message (Error m) = m"
| "message (TypeError m) = m"
| "message (SystemError m) = m"

text \<open>
  The values of JSON. A number is represented by the text that conversion to a string
  gives for it, which is all the handlers can observe of a number; the text is \<open>0\<close>
  exactly for the two zeros.
\<close>

datatype jsval =
    JNull
  | JBool bool
  | JNumber string
  | JString string
  | JArray "jsval list"
  | JObject "string \<Rightarrow> jsval option"

type_synonym jsobj = "string \<Rightarrow> jsval option"

text \<open>
  \<open>!x\<close> is true for \<open>undefined\<close>, \<open>null\<close>, \<open>false\<close>, zero and the empty string, and
  false for every other value.
\<close>

definition truthy :: "jsval option \<Rightarrow> bool" where
  "truthy v =
     (case v of
        None \<Rightarrow> False
      | Some JNull \<Rightarrow> False
      | Some (JBool b) \<Rightarrow> b
      | Some (JNumber t) \<Rightarrow> t \<noteq> ''0''
      | Some (JString s) \<Rightarrow> s \<noteq> []
      | Some (JArray xs) \<Rightarrow> True
      | Some (JObject obj) \<Rightarrow> True)"

text \<open>
  Conversion to a string. The elements of an array are converted in order and joined
  by commas, \<open>null\<close> giving the empty string. An object from JSON has no callable
  member: it converts to \<open>[object Object]\<close> through \<open>Object.prototype.toString\<close>, unless
  it has a member \<open>toString\<close> of its own, which hides that method and makes the
  conversion throw.
\<close>

fun join_results :: "(js_error + string) list \<Rightarrow> js_error + string" where
  "join_results [] = Inr []"
| "join_results [r] = r"
| "join_results (r # rs) =
     (case r of
        Inl e \<Rightarrow> Inl e
      | Inr s \<Rightarrow> (case join_results rs of Inl e \<Rightarrow> Inl e | Inr t \<Rightarrow> Inr (s @ '','' @ t)))"

fun to_string :: "jsval \<Rightarrow> js_error + string" where
  "to_string JNull = Inr ''null''"
| "to_string (JBool b) = Inr (if b then ''true'' else ''false'')"
| "to_string (JNumber t) = Inr t"
| "to_string (JString s) = Inr s"
| "to_string (JArray xs) =
     join_results (map (\<lambda>x. case x of JNull \<Rightarrow> Inr [] | _ \<Rightarrow> to_string x) xs)"
| "to_string (JObject obj) =
     (if obj ''toString'' \<noteq> None
        then Inl (TypeError ''Cannot convert object to primitive value'')
      else Inr ''[object Object]'')"

text \<open>Template interpolation \<open>`${x}`\<close> of a field that may be \<open>undefined\<close>.\<close>

definition interpolate :: "jsval option \<Rightarrow> js_error + string" where
  "interpolate v = (case v of None \<Rightarrow> Inr ''undefined'' | Some x \<Rightarrow> to_string x)"

text \<open>
  The white space and line terminator code units below 256 that
  \<open>String.prototype.trim\<close> removes: TAB, LF, VT, FF, CR, SP and NBSP.
\<close>

definition js_whitespace :: "char \<Rightarrow> bool" where
  "js_whitespace c =
     (c \<in> set [CHR 0x09, CHR 0x0A, CHR 0x0B, CHR 0x0C, CHR 0x0D, CHR '' '', CHR 0xA0])"

definition trim :: "string \<Rightarrow> string" where
  "trim s = rev (dropWhile js_whitespace (rev (dropWhile js_whitespace s)))"

text \<open>\<open>Array.prototype.join\<close>.\<close>

fun join :: "string \<Rightarrow> string list \<Rightarrow> string" where
  "join sep [] = []"
| "join sep [x] = x"
| "join sep (x # y # ys) = x @ sep @ join sep (y # ys)"

text \<open>\<open>Number.prototype.toString\<close> on a non-negative integer: its decimal digits.\<close>

definition digit_char :: "nat \<Rightarrow> char" where
  "digit_char d = ''0123456789'' ! d"

fun toString :: "nat \<Rightarrow> string" where
  "toString n = (if n < 10 then [digit_char n]
                 else toString (n div 10) @ [digit_char (n mod 10)])"

declare toString.simps [simp del]

text \<open>\<open>String.prototype.padStart\<close> with a one-character filler.\<close>

definition padStart :: "nat \<Rightarrow> char \<Rightarrow> string \<Rightarrow> string" where
  "padStart n c s = replicate (n - length s) c @ s"

text \<open>\<open>(n).toString().padStart(4, '0')\<close>, the rendering of every serial number.\<close>

definition serial :: "nat \<Rightarrow> string" where
  "serial n = padStart 4 (CHR ''0'') (toString n)"

subsection \<open>Regular expressions of the validators and of the photo decoder\<close>

definition is_digit :: "char \<Rightarrow> bool" where
  "is_digit c = (c \<in> set ''0123456789'')"

definition is_word_char :: "char \<Rightarrow> bool" where
  "is_word_char c =
     (c \<in> set ''abcdefghijklmnopqrstuvwxyzABCDEFGHIJKLMNOPQRSTUVWXYZ0123456789_'')"

text \<open>Matching a literal, and \<open>\d{n}\<close>, at the start of the input: the rest after the match.\<close>

definition match_literal :: "string \<Rightarrow> string \<Rightarrow> string option" where
  "match_literal p s =
     (if take (length p) s = p then Some (drop (length p) s) else None)"

definition match_digits :: "nat \<Rightarrow> string \<Rightarrow> string option" where
  "match_digits n s =
     (if n \<le> length s \<and> list_all is_digit (take n s) then Some (drop n s) else None)"

text \<open>
  \<open>/^784-\d{4}-\d{7}-\d$/.test(s)\<close>. The pattern has no flag, so \<open>$\<close> matches at the end
  of the input only, and it has no alternative and no unbounded repetition, so one
  left-to-right pass decides it.
\<close>

definition idPattern_test :: "string \<Rightarrow> bool" where
  "idPattern_test s =
     (Option.bind (Option.bind (Option.bind (Option.bind (Option.bind
        (match_literal ''784-'' s) (match_digits 4)) (match_literal ''-''))
        (match_digits 7)) (match_literal ''-'')) (match_digits 1) = Some [])"

text \<open>
  \<open>s.replace(/^data:image\/\w+;base64,/, '')\<close>. The greedy \<open>\w+\<close> is followed by
  \<open>;\<close>, which is no word character, so backtracking into a shorter run cannot match.
\<close>

definition strip_data_uri :: "string \<Rightarrow> string" where
  "strip_data_uri s =
     (case match_literal ''data:image/'' s of
        None \<Rightarrow> s
      | Some r \<Rightarrow>
          if takeWhile is_word_char r = [] then s
          else (case match_literal '';base64,'' (dropWhile is_word_char r) of
                  None \<Rightarrow> s
                | Some rest \<Rightarrow> rest))"

subsection \<open>Validation\<close>

datatype kind = Visitor | Key

definition requiredFields :: "kind \<Rightarrow> string list" where
  "requiredFields k =
     (case k of
        Visitor \<Rightarrow> [''serialNumber'', ''idNumber'', ''name'', ''company'', ''phone'',
                    ''timeIn'', ''date'', ''purpose'']
      | Key \<Rightarrow> [''serialNumber'', ''idNumber'', ''name'', ''keyTagName'', ''timeTaken'',
                ''date'', ''securityRemarks''])"

text \<open>
  A method call \<open>x.trim()\<close> or \<open>x.replace(...)\<close>, where \<open>name\<close> is the source text of
  \<open>x\<close>: only a string has the method; on \<open>undefined\<close> and \<open>null\<close> the member access
  throws, on any other value the call does. The result is the string the method is
  applied to. The error texts are those of Node, without their quotation marks.
\<close>

definition string_method :: "string \<Rightarrow> string \<Rightarrow> jsval option \<Rightarrow> js_error + string" where
  "string_method name method v =
     (case v of
        Some (JString s) \<Rightarrow> Inr s
      | None \<Rightarrow> Inl (TypeError (''Cannot read properties of undefined (reading '' @ method @ '')''))
      | Some JNull \<Rightarrow> Inl (TypeError (''Cannot read properties of null (reading '' @ method @ '')''))
      | Some other \<Rightarrow> Inl (TypeError (name @ ''.'' @ method @ '' is not a function'')))"

definition object_name :: "kind \<Rightarrow> string" where
  "object_name k = (case k of Visitor \<Rightarrow> ''visitor'' | Key \<Rightarrow> ''key'')"

text \<open>
  The loop over the required fields, from the fields still to check and the missing
  fields collected so far:
  \<open>if (!obj[field] || obj[field].trim() === '') missingFields.push(field)\<close>.
  The call of \<open>trim\<close> on a truthy value that is no string throws and ends the loop.
\<close>

fun checkRequired :: "kind \<Rightarrow> jsobj \<Rightarrow> string list \<Rightarrow> string list \<Rightarrow> js_error + string list" where
  "checkRequired k obj [] missingFields = Inr missingFields"
| "checkRequired k obj (field # fields) missingFields =
     (if \<not> truthy (obj field) then checkRequired k obj fields (missingFields @ [field])
      else (case string_method (object_name k @ ''[field]'') ''trim'' (obj field) of
              Inl e \<Rightarrow> Inl e
            | Inr s \<Rightarrow>
                if trim s = [] then checkRequired k obj fields (missingFields @ [field])
                else checkRequired k obj fields missingFields))"

definition invalid_id_message :: "kind \<Rightarrow> string" where
  "invalid_id_message k =
     (case k of
        Visitor \<Rightarrow> ''Invalid ID Number format''
      | Key \<Rightarrow> ''Invalid Emirates ID format. Expected format: 784-XXXX-XXXXXXX-X'')"

text \<open>
  \<open>validateVisitorData\<close> and \<open>validateKeyData\<close>: the three checks in the order of the
  source, each throwing an \<open>Error\<close>; \<open>true\<close> is returned otherwise. \<open>RegExp.test\<close>
  converts its argument to a string.
\<close>

definition validateData :: "kind \<Rightarrow> jsobj \<Rightarrow> js_error + bool" where
  "validateData k obj =
     (case checkRequired k obj (requiredFields k) [] of
        Inl e \<Rightarrow> Inl e
      | Inr missingFields \<Rightarrow>
          if length missingFields > 0
            then Inl (Error (''Missing required fields: '' @ join '', '' missingFields))
          else (case interpolate (obj ''idNumber'') of
                  Inl e \<Rightarrow> Inl e
                | Inr idNumber \<Rightarrow>
                    if \<not> idPattern_test idNumber
                      then Inl (Error (invalid_id_message k))
                    else if \<not> truthy (obj ''frontPhoto'') \<or> \<not> truthy (obj ''backPhoto'')
                      then Inl (Error ''Both front and back ID photos are required'')
                    else Inr True))"

definition validateVisitorData :: "jsobj \<Rightarrow> js_error + bool" where
  "validateVisitorData = validateData Visitor"

definition validateKeyData :: "jsobj \<Rightarrow> js_error + bool" where
  "validateKeyData = validateData Key"

subsection \<open>Persisted state and the file-system calls\<close>

text \<open>
  The state owned by the record store: the two collection files, the photo directory
  and, for the faults of the environment, the paths on which a writing call fails.
  A collection file holds a list of records; \<open>None\<close> stands for a file that cannot be
  read or parsed. A photo file holds the decoding of the base64 text written to it,
  and is represented by that text.
\<close>

record store =
  data_files :: "kind \<Rightarrow> jsobj list option"
  photos :: "string \<Rightarrow> string option"
  io_fault :: "string \<Rightarrow> bool"

definition path_join :: "string \<Rightarrow> string \<Rightarrow> string" where
  "path_join dir name = dir @ ''/'' @ name"

definition DATA_DIR :: string where
  "DATA_DIR = ''data''"

definition VISITORS_FILE :: string where
  "VISITORS_FILE = path_join DATA_DIR ''visitors.json''"

definition KEYS_FILE :: string where
  "KEYS_FILE = path_join DATA_DIR ''keys.json''"

definition PHOTOS_DIR :: string where
  "PHOTOS_DIR = path_join DATA_DIR ''photos''"

definition collection_file :: "kind \<Rightarrow> string" where
  "collection_file k = (case k of Visitor \<Rightarrow> VISITORS_FILE | Key \<Rightarrow> KEYS_FILE)"

text \<open>\<open>`${serial}_front.jpg`\<close> for a visitor, \<open>`key_${serial}_front.jpg`\<close> for a key.\<close>

definition photo_name :: "kind \<Rightarrow> string \<Rightarrow> string \<Rightarrow> string" where
  "photo_name k sn side =
     (case k of Visitor \<Rightarrow> [] | Key \<Rightarrow> ''key_'') @ sn @ ''_'' @ side @ ''.jpg''"

definition photo_path :: "kind \<Rightarrow> string \<Rightarrow> string \<Rightarrow> string" where
  "photo_path k sn side = path_join PHOTOS_DIR (photo_name k sn side)"

definition photo_url :: "kind \<Rightarrow> string \<Rightarrow> string \<Rightarrow> string" where
  "photo_url k sn side = ''/photos/'' @ photo_name k sn side"

text \<open>
  The calls on \<open>fs\<close>. Each either fails without effect or succeeds with the new state.
  In server.js \<open>fs\<close> is bound to \<open>require('fs').promises\<close>, the promise API, which has
  \<open>writeFile\<close>, \<open>unlink\<close> and \<open>rename\<close> and has no member \<open>existsSync\<close>: the call
  \<open>fs.existsSync(p)\<close> raises a \<open>TypeError\<close> whatever the path.
\<close>

definition fs_writeFile :: "string \<Rightarrow> string \<Rightarrow> store \<Rightarrow> js_error + store" where
  "fs_writeFile p d st =
     (if io_fault st p then Inl (SystemError (''EACCES: permission denied, open '' @ p))
      else Inr (st\<lparr>photos := (photos st)(p \<mapsto> d)\<rparr>))"

definition fs_unlink :: "string \<Rightarrow> store \<Rightarrow> js_error + store" where
  "fs_unlink p st =
     (if photos st p = None
        then Inl (SystemError (''ENOENT: no such file or directory, unlink '' @ p))
      else if io_fault st p
        then Inl (SystemError (''EACCES: permission denied, unlink '' @ p))
      else Inr (st\<lparr>photos := (photos st)(p := None)\<rparr>))"

definition fs_rename :: "string \<Rightarrow> string \<Rightarrow> store \<Rightarrow> js_error + store" where
  "fs_rename p q st =
     (if photos st p = None
        then Inl (SystemError (''ENOENT: no such file or directory, rename '' @ p))
      else if io_fault st p \<or> io_fault st q
        then Inl (SystemError (''EACCES: permission denied, rename '' @ p))
      else Inr (st\<lparr>photos := (photos st)(p := None, q := photos st p)\<rparr>))"

definition fs_existsSync :: "string \<Rightarrow> store \<Rightarrow> js_error + bool" where
  "fs_existsSync p st = Inl (TypeError ''fs.existsSync is not a function'')"

text \<open>
  \<open>loadVisitors\<close> and \<open>loadKeys\<close>: a failed read or parse is caught and gives the empty
  list. \<open>saveVisitors\<close> and \<open>saveKeys\<close>: a failed write is thrown again.
\<close>

definition loadRecords :: "kind \<Rightarrow> store \<Rightarrow> jsobj list" where
  "loadRecords k st = (case data_files st k of None \<Rightarrow> [] | Some records \<Rightarrow> records)"

definition saveRecords :: "kind \<Rightarrow> jsobj list \<Rightarrow> store \<Rightarrow> js_error + store" where
  "saveRecords k records st =
     (if io_fault st (collection_file k)
        then Inl (SystemError (''EACCES: permission denied, open '' @ collection_file k))
      else Inr (st\<lparr>data_files := (data_files st)(k := Some records)\<rparr>))"

definition loadVisitors :: "store \<Rightarrow> jsobj list" where
  "loadVisitors = loadRecords Visitor"

definition loadKeys :: "store \<Rightarrow> jsobj list" where
  "loadKeys = loadRecords Key"

definition saveVisitors :: "jsobj list \<Rightarrow> store \<Rightarrow> js_error + store" where
  "saveVisitors = saveRecords Visitor"

definition saveKeys :: "jsobj list \<Rightarrow> store \<Rightarrow> js_error + store" where
  "saveKeys = saveRecords Key"

subsection \<open>Request handlers\<close>

text \<open>
  What a handler sends: the 201 of a create with the stored record, a record as JSON,
  the remaining count of a delete, the two statistics, or a status code of failure with
  the error text of its body.
\<close>

datatype response =
    Created jsobj
  | Json jsobj
  | Deleted (remainingCount: nat)
  | Stats (totalVisitors: nat) (activeKeys: nat)
  | Failure nat string

text \<open>\<open>Array.prototype.findIndex\<close>; \<open>None\<close> stands for \<open>-1\<close>.\<close>

fun findIndex :: "('a \<Rightarrow> bool) \<Rightarrow> 'a list \<Rightarrow> nat option" where
  "findIndex P [] = None"
| "findIndex P (x # xs) = (if P x then Some 0 else map_option Suc (findIndex P xs))"

text \<open>The body of the 400 response of a create: \<open>error.message || 'Failed to create ...'\<close>.\<close>

definition create_error :: "kind \<Rightarrow> js_error \<Rightarrow> string" where
  "create_error k e =
     (if message e \<noteq> [] then message e
      else (case k of Visitor \<Rightarrow> ''Failed to create visitor''
                    | Key \<Rightarrow> ''Failed to create key entry''))"

text \<open>
  \<open>POST /api/visitors\<close> and \<open>POST /api/keys\<close>. \<open>today\<close> is
  \<open>new Date().toISOString().split('T')[0]\<close>. Every exception is caught by the one
  handler at the end, which answers 400; the state is what the calls before the
  exception left. Both photo payloads are decoded before the first file is written.
\<close>

definition createRecord :: "kind \<Rightarrow> string \<Rightarrow> jsobj \<Rightarrow> store \<Rightarrow> response \<times> store" where
  "createRecord k today body st =
     (case validateData k body of
        Inl e \<Rightarrow> (Failure 400 (create_error k e), st)
      | Inr _ \<Rightarrow>
          let records = loadRecords k st;
              nextSerialNumber = serial (length records + 1);
              r1 = body(''serialNumber'' \<mapsto> JString nextSerialNumber);
              r2 = (case k of
                      Visitor \<Rightarrow> r1(''date'' \<mapsto> JString today)
                    | Key \<Rightarrow> if \<not> truthy (r1 ''date'') then r1(''date'' \<mapsto> JString today)
                             else r1);
              frontPhotoPath = photo_path k nextSerialNumber ''front'';
              backPhotoPath = photo_path k nextSerialNumber ''back''
          in (case string_method (object_name k @ ''.frontPhoto'') ''replace''
                     (r2 ''frontPhoto'') of
                Inl e \<Rightarrow> (Failure 400 (create_error k e), st)
              | Inr frontPhoto \<Rightarrow>
             (case string_method (object_name k @ ''.backPhoto'') ''replace''
                     (r2 ''backPhoto'') of
                Inl e \<Rightarrow> (Failure 400 (create_error k e), st)
              | Inr backPhoto \<Rightarrow>
             (case fs_writeFile frontPhotoPath (strip_data_uri frontPhoto) st of
                Inl e \<Rightarrow> (Failure 400 (create_error k e), st)
              | Inr st1 \<Rightarrow>
             (case fs_writeFile backPhotoPath (strip_data_uri backPhoto) st1 of
                Inl e \<Rightarrow> (Failure 400 (create_error k e), st1)
              | Inr st2 \<Rightarrow>
                  let r3 = r2(''frontPhoto'' \<mapsto> JString (photo_url k nextSerialNumber ''front''),
                              ''backPhoto'' \<mapsto> JString (photo_url k nextSerialNumber ''back''))
                  in (case saveRecords k (records @ [r3]) st2 of
                        Inl e \<Rightarrow> (Failure 400 (create_error k e), st2)
                      | Inr st3 \<Rightarrow> (Created r3, st3)))))))"

text \<open>
  \<open>POST /api/visitors/:serialNumber/timeout\<close> and \<open>POST /api/keys/:serialNumber/return\<close>.
  \<open>find\<close> returns the first matching object of the array itself, so the assignment
  changes the array at that index. The supplied time is any JSON value, or \<open>None\<close> when
  the body has none.
\<close>

definition time_field :: "kind \<Rightarrow> string" where
  "time_field k = (case k of Visitor \<Rightarrow> ''timeOut'' | Key \<Rightarrow> ''timeReturned'')"

definition not_found :: "kind \<Rightarrow> string" where
  "not_found k = (case k of Visitor \<Rightarrow> ''Visitor not found'' | Key \<Rightarrow> ''Key not found'')"

definition recordTime :: "kind \<Rightarrow> string \<Rightarrow> jsval option \<Rightarrow> store \<Rightarrow> response \<times> store" where
  "recordTime k serialNumber t st =
     (let records = loadRecords k st in
      case findIndex (\<lambda>v. v ''serialNumber'' = Some (JString serialNumber)) records of
        None \<Rightarrow> (Failure 404 (not_found k), st)
      | Some i \<Rightarrow>
          let r = (records ! i)(time_field k := t);
              records' = records[i := r]
          in (case saveRecords k records' st of
                Inl e \<Rightarrow> (Failure 500 (case k of Visitor \<Rightarrow> ''Failed to record timeout''
                                               | Key \<Rightarrow> ''Failed to record key return''), st)
              | Inr st' \<Rightarrow> (Json r, st')))"

text \<open>
  The two guarded blocks of the delete: unlinking the photos of the deleted record and
  renaming the photos of a renumbered one. An exception inside a block ends the block,
  is logged, and the handler goes on from the state reached. The old file names are
  built inside the second block from the stored serial number, whatever value it is.
\<close>

definition unlink_photos :: "kind \<Rightarrow> string \<Rightarrow> store \<Rightarrow> store" where
  "unlink_photos k sn st =
     (let frontPhotoPath = photo_path k sn ''front'';
          backPhotoPath = photo_path k sn ''back''
      in case fs_existsSync frontPhotoPath st of
           Inl e \<Rightarrow> st
         | Inr ex1 \<Rightarrow>
        (case (if ex1 then fs_unlink frontPhotoPath st else Inr st) of
           Inl e \<Rightarrow> st
         | Inr st1 \<Rightarrow>
        (case fs_existsSync backPhotoPath st1 of
           Inl e \<Rightarrow> st1
         | Inr ex2 \<Rightarrow>
        (case (if ex2 then fs_unlink backPhotoPath st1 else Inr st1) of
           Inl e \<Rightarrow> st1
         | Inr st2 \<Rightarrow> st2))))"

definition rename_photos :: "kind \<Rightarrow> jsval option \<Rightarrow> string \<Rightarrow> store \<Rightarrow> store" where
  "rename_photos k oldSerial newSerial st =
     (case interpolate oldSerial of
        Inl e \<Rightarrow> st
      | Inr old \<Rightarrow>
          let oldFrontPath = photo_path k old ''front'';
              oldBackPath = photo_path k old ''back'';
              newFrontPath = photo_path k newSerial ''front'';
              newBackPath = photo_path k newSerial ''back''
          in case fs_existsSync oldFrontPath st of
               Inl e \<Rightarrow> st
             | Inr ex1 \<Rightarrow>
            (case (if ex1 then fs_rename oldFrontPath newFrontPath st else Inr st) of
               Inl e \<Rightarrow> st
             | Inr st1 \<Rightarrow>
            (case fs_existsSync oldBackPath st1 of
               Inl e \<Rightarrow> st1
             | Inr ex2 \<Rightarrow>
            (case (if ex2 then fs_rename oldBackPath newBackPath st1 else Inr st1) of
               Inl e \<Rightarrow> st1
             | Inr st2 \<Rightarrow> st2))))"

text \<open>
  The renumbering loop \<open>for (let i = 0; i < records.length; i++)\<close>, from index \<open>i\<close> on
  the rest of the array: the record gets the serial number of its position and the
  photo references built from it, then its photo files are renamed.
\<close>

fun renumber :: "kind \<Rightarrow> nat \<Rightarrow> jsobj list \<Rightarrow> store \<Rightarrow> jsobj list \<times> store" where
  "renumber k i [] st = ([], st)"
| "renumber k i (r # rs) st =
     (let newSerial = serial (i + 1);
          oldSerial = r ''serialNumber'';
          r' = r(''serialNumber'' \<mapsto> JString newSerial,
                 ''frontPhoto'' \<mapsto> JString (photo_url k newSerial ''front''),
                 ''backPhoto'' \<mapsto> JString (photo_url k newSerial ''back''));
          st' = rename_photos k oldSerial newSerial st;
          (rs', st'') = renumber k (i + 1) rs st'
      in (r' # rs', st''))"

text \<open>
  \<open>DELETE /api/visitors/:serialNumber/adjust\<close> and \<open>DELETE /api/keys/:serialNumber\<close>.
\<close>

definition deleteAdjust :: "kind \<Rightarrow> string \<Rightarrow> store \<Rightarrow> response \<times> store" where
  "deleteAdjust k serialNumber st =
     (let records = loadRecords k st in
      case findIndex (\<lambda>v. v ''serialNumber'' = Some (JString serialNumber)) records of
        None \<Rightarrow> (Failure 404 (not_found k), st)
      | Some i \<Rightarrow>
          let spliced = take i records @ drop (Suc i) records;
              st1 = unlink_photos k serialNumber st;
              (renumbered, st2) = renumber k 0 spliced st1
          in (case saveRecords k renumbered st2 of
                Inl e \<Rightarrow> (Failure 500 (case k of
                             Visitor \<Rightarrow> ''Failed to delete visitor and adjust serial numbers''
                           | Key \<Rightarrow> ''Failed to delete key''), st2)
              | Inr st3 \<Rightarrow> (Deleted (length renumbered), st3)))"

text \<open>\<open>GET /api/stats\<close>.\<close>

definition stats :: "store \<Rightarrow> response" where
  "stats st =
     (let visitors = loadVisitors st;
          keys = loadKeys st;
          active = length (filter (\<lambda>k. \<not> truthy (k ''timeReturned'')) keys)
      in Stats (length visitors) active)"

subsection \<open>The validator of the older server variant\<close>

text \<open>
  The second server file of the repository has its own \<open>validateVisitorData\<close>, with
  other required fields, no trimming, and a \<open>throw\<close> inside the loop.
\<close>

definition validateVisitorData_variant :: "jsobj \<Rightarrow> js_error + unit" where
  "validateVisitorData_variant data =
     (case find (\<lambda>field. \<not> truthy (data field))
             [''name'', ''purpose'', ''personToMeet'', ''idType''] of
        Some field \<Rightarrow> Inl (Error (''Missing required field: '' @ field))
      | None \<Rightarrow> Inr ())"

subsection \<open>Auxiliary definitions for the statements\<close>

text \<open>
  The three outcomes of the presence check on one field: it is taken as missing (a falsy
  value, or a string that is empty after trimming), it is filled (any other string), or
  the check throws (a truthy value that is no string).
\<close>

definition field_missing :: "jsval option \<Rightarrow> bool" where
  "field_missing v = (case v of Some (JString s) \<Rightarrow> trim s = [] | _ \<Rightarrow> \<not> truthy v)"

definition field_filled :: "jsval option \<Rightarrow> bool" where
  "field_filled v = (case v of Some (JString s) \<Rightarrow> trim s \<noteq> [] | _ \<Rightarrow> False)"

definition field_throws :: "jsval option \<Rightarrow> bool" where
  "field_throws v = (case v of Some (JString s) \<Rightarrow> False | _ \<Rightarrow> truthy v)"

definition missingFields :: "kind \<Rightarrow> jsobj \<Rightarrow> string list" where
  "missingFields k obj = filter (\<lambda>field. field_missing (obj field)) (requiredFields k)"


text \<open>
  The record that a successful create stores for the request body \<open>body\<close> when it is
  the \<open>n\<close>-th record of its collection.
\<close>

definition stored_record :: "kind \<Rightarrow> string \<Rightarrow> jsobj \<Rightarrow> nat \<Rightarrow> jsobj" where
  "stored_record k today body n =
     (case k of
        Visitor \<Rightarrow> body(''serialNumber'' \<mapsto> JString (serial n),
                    ''date'' \<mapsto> JString today,
                    ''frontPhoto'' \<mapsto> JString (photo_url k (serial n) ''front''),
                    ''backPhoto'' \<mapsto> JString (photo_url k (serial n) ''back''))
      | Key \<Rightarrow> body(''serialNumber'' \<mapsto> JString (serial n),
                    ''frontPhoto'' \<mapsto> JString (photo_url k (serial n) ''front''),
                    ''backPhoto'' \<mapsto> JString (photo_url k (serial n) ''back'')))"

text \<open>The number that a string of decimal digits denotes.\<close>

definition digit_value :: "char \<Rightarrow> nat" where
  "digit_value c = of_char c - 48"

definition decimal_value :: "string \<Rightarrow> nat" where
  "decimal_value s = foldl (\<lambda>a c. 10 * a + digit_value c) 0 s"

text \<open>
  Concrete inputs: an empty store without faults, a filled visitor form and a filled
  key form, and the stores reached by creating three visitors one after the other.
\<close>

definition empty_store :: store where
  "empty_store = \<lparr>data_files = (\<lambda>k. Some []), photos = (\<lambda>p. None), io_fault = (\<lambda>p. False)\<rparr>"

definition visitor_form :: "string \<Rightarrow> string \<Rightarrow> string \<Rightarrow> jsobj" where
  "visitor_form name front back =
     [''serialNumber'' \<mapsto> JString ''0000'', ''idNumber'' \<mapsto> JString ''784-1234-1234567-1'',
      ''name'' \<mapsto> JString name, ''company'' \<mapsto> JString ''Acme'',
      ''phone'' \<mapsto> JString ''0501234567'', ''timeIn'' \<mapsto> JString ''09:00'',
      ''date'' \<mapsto> JString ''2020-01-01'', ''purpose'' \<mapsto> JString ''Meeting'',
      ''frontPhoto'' \<mapsto> JString front, ''backPhoto'' \<mapsto> JString back]"

definition key_form :: jsobj where
  "key_form =
     [''serialNumber'' \<mapsto> JString ''0000'', ''idNumber'' \<mapsto> JString ''784-1234-1234567-1'',
      ''name'' \<mapsto> JString ''Dan'', ''keyTagName'' \<mapsto> JString ''Store room'',
      ''timeTaken'' \<mapsto> JString ''10:15'', ''date'' \<mapsto> JString ''2020-01-01'',
      ''securityRemarks'' \<mapsto> JString ''none'',
      ''frontPhoto'' \<mapsto> JString ''data:image/png;base64,RlJPTlQ='',
      ''backPhoto'' \<mapsto> JString ''QkFDSw=='']"

definition day :: string where
  "day = ''2024-05-05''"

definition ann :: jsobj where
  "ann = visitor_form ''Ann'' ''data:image/jpeg;base64,QUFB'' ''data:image/jpeg;base64,YWFh''"

definition bob :: jsobj where
  "bob = visitor_form ''Bob'' ''data:image/jpeg;base64,QkJC'' ''data:image/jpeg;base64,YmJi''"

definition cyd :: jsobj where
  "cyd = visitor_form ''Cyd'' ''data:image/jpeg;base64,Q0ND'' ''data:image/jpeg;base64,Y2Nj''"

definition store_1 :: store where
  "store_1 = snd (createRecord Visitor day ann empty_store)"

definition store_2 :: store where
  "store_2 = snd (createRecord Visitor day bob store_1)"

definition store_3 :: store where
  "store_3 = snd (createRecord Visitor day cyd store_2)"

text \<open>A visitor form whose name is white space only and whose company is absent.\<close>

definition incomplete_form :: jsobj where
  "incomplete_form = (visitor_form [CHR '' '', CHR 0x09] ''QUFB'' ''YWFh'')(''company'' := None)"

text \<open>The form of Ann with an identity number of the wrong shape.\<close>

definition malformed_form :: jsobj where
  "malformed_form = ann(''idNumber'' \<mapsto> JString ''123-4567-8901234-5'')"

text \<open>The key form without a date.\<close>

definition undated_form :: jsobj where
  "undated_form = key_form(''date'' := None)"

text \<open>
  What the renumbering loop makes of a record at position \<open>n - 1\<close>, and the invariant of
  a collection: the serial numbers are those of the positions, \<open>0001\<close> onwards.
\<close>

definition renumber_record :: "kind \<Rightarrow> nat \<Rightarrow> jsobj \<Rightarrow> jsobj" where
  "renumber_record k n r =
     r(''serialNumber'' \<mapsto> JString (serial n),
       ''frontPhoto'' \<mapsto> JString (photo_url k (serial n) ''front''),
       ''backPhoto'' \<mapsto> JString (photo_url k (serial n) ''back''))"

definition dense :: "jsobj list \<Rightarrow> bool" where
  "dense rs =
     (map (\<lambda>r. r ''serialNumber'') rs = map (\<lambda>j. Some (JString (serial (j + 1)))) [0..<length rs])"

text \<open>The empty store in which writing the back photo of the first visitor fails.\<close>

definition back_fault_store :: store where
  "back_fault_store = empty_store\<lparr>io_fault := (\<lambda>p. p = ''data/photos/0001_back.jpg'')\<rparr>"

text \<open>
  A request body that create accepts: every required field filled, an identity number
  of the required shape, and both photo payloads non-empty strings. A store in which
  the three files of the next create can be written. The text that create writes to a
  photo file.
\<close>

definition acceptable :: "kind \<Rightarrow> jsobj \<Rightarrow> bool" where
  "acceptable k body =
     (list_all (\<lambda>f. field_filled (body f)) (requiredFields k) \<and>
      (case body ''idNumber'' of Some (JString s) \<Rightarrow> idPattern_test s | _ \<Rightarrow> False) \<and>
      (case body ''frontPhoto'' of Some (JString s) \<Rightarrow> s \<noteq> [] | _ \<Rightarrow> False) \<and>
      (case body ''backPhoto'' of Some (JString s) \<Rightarrow> s \<noteq> [] | _ \<Rightarrow> False))"

definition writable :: "kind \<Rightarrow> store \<Rightarrow> bool" where
  "writable k st =
     (\<not> (io_fault st (photo_path k (serial (length (loadRecords k st) + 1)) ''front'') \<or>
         io_fault st (photo_path k (serial (length (loadRecords k st) + 1)) ''back'') \<or>
         io_fault st (collection_file k)))"

definition payload :: "jsval option \<Rightarrow> string" where
  "payload v = (case v of Some (JString s) \<Rightarrow> strip_data_uri s | _ \<Rightarrow> [])"

text \<open>
  The forms of the counterexamples: the name a number and the company absent; the form
  of Ann with the number 1 as front photo; a form for the older variant with a name only.
\<close>

definition typed_form :: jsobj where
  "typed_form = ann(''name'' \<mapsto> JNumber ''123'', ''company'' := None)"

definition number_photo_form :: jsobj where
  "number_photo_form = ann(''frontPhoto'' \<mapsto> JNumber ''1'')"

definition variant_form :: jsobj where
  "variant_form = [''name'' \<mapsto> JString ''Ann'']"

text \<open>
  The stores reached from the third one by creating two keys, returning the first at
  17:45 and then recording \<open>false\<close> as the return time of the second.
\<close>

definition desk_1 :: store where
  "desk_1 = snd (createRecord Key day key_form store_3)"

definition desk_2 :: store where
  "desk_2 = snd (createRecord Key day key_form desk_1)"

definition desk_3 :: store where
  "desk_3 = snd (recordTime Key ''0001'' (Some (JString ''17:45'')) desk_2)"

definition desk_4 :: store where
  "desk_4 = snd (recordTime Key ''0002'' (Some (JBool False)) desk_3)"

text \<open>
  In the words of the specification: the number of records that lack a value of a
  field, the field being absent or \<open>null\<close>.
\<close>

definition lacking :: "string \<Rightarrow> jsobj list \<Rightarrow> nat" where
  "lacking field rs = length (filter (\<lambda>r. r field = None \<or> r field = Some JNull) rs)"

section \<open>Properties\<close>

subsection \<open>Validation\<close>

lemma trim_Nil: "trim [] = []"
  by (simp add: trim_def)

lemma field_cases: "field_missing v \<or> field_filled v \<or> field_throws v"
  by (simp add: field_missing_def field_filled_def field_throws_def
      split: option.splits jsval.splits)

lemma field_filled_iff: "field_filled v \<longleftrightarrow> (\<exists>s. v = Some (JString s) \<and> trim s \<noteq> [])"
  by (simp add: field_filled_def split: option.splits jsval.splits)

lemma field_filled_truthy: "field_filled v \<Longrightarrow> truthy v"
  by (auto simp: field_filled_iff truthy_def trim_Nil)

lemma field_filled_not_missing: "field_filled v \<Longrightarrow> \<not> field_missing v \<and> \<not> field_throws v"
  by (auto simp: field_filled_iff field_missing_def field_throws_def)

lemma field_missing_not_throws: "field_missing v \<Longrightarrow> \<not> field_throws v"
  by (simp add: field_missing_def field_throws_def split: option.splits jsval.splits)

lemma field_missing_iff:
  "field_missing v \<longleftrightarrow> \<not> truthy v \<or> (\<exists>s. v = Some (JString s) \<and> trim s = [])"
proof (cases v)
  case None
  then show ?thesis by (simp add: field_missing_def truthy_def)
next
  case (Some x)
  show ?thesis
  proof (cases x)
    case (JString s)
    with Some show ?thesis
      by (cases "s = []") (simp_all add: field_missing_def truthy_def trim_Nil)
  qed (simp_all add: Some field_missing_def)
qed

lemma check_step_missing:
  "field_missing (obj field) \<Longrightarrow>
   checkRequired k obj (field # flds) acc = checkRequired k obj flds (acc @ [field])"
  by (simp add: field_missing_def string_method_def truthy_def
      split: option.splits jsval.splits)

lemma check_step_filled:
  "field_filled (obj field) \<Longrightarrow>
   checkRequired k obj (field # flds) acc = checkRequired k obj flds acc"
  by (auto simp: field_filled_iff string_method_def truthy_def trim_Nil)

lemma check_step_throws:
  "field_throws (obj field) \<Longrightarrow>
   checkRequired k obj (field # flds) acc =
     Inl (TypeError (object_name k @ ''[field].trim is not a function''))"
  by (simp add: field_throws_def string_method_def truthy_def
      split: option.splits jsval.splits)

lemma checkRequired_no_throw:
  "\<forall>f \<in> set flds. \<not> field_throws (obj f) \<Longrightarrow>
   checkRequired k obj flds acc = Inr (acc @ filter (\<lambda>f. field_missing (obj f)) flds)"
proof (induction flds arbitrary: acc)
  case Nil
  then show ?case by simp
next
  case (Cons f flds)
  then have nt: "\<not> field_throws (obj f)" and rest: "\<forall>f \<in> set flds. \<not> field_throws (obj f)"
    by simp_all
  show ?case
  proof (cases "field_missing (obj f)")
    case True
    then show ?thesis
      by (simp only: check_step_missing[where obj = obj and field = f, OF True] Cons.IH[OF rest]) simp
  next
    case False
    with nt field_cases[of "obj f"] have fl: "field_filled (obj f)" by blast
    show ?thesis
      using False by (simp only: check_step_filled[where obj = obj and field = f, OF fl] Cons.IH[OF rest]) simp
  qed
qed

lemma checkRequired_throw:
  "\<exists>f \<in> set flds. field_throws (obj f) \<Longrightarrow>
   checkRequired k obj flds acc =
     Inl (TypeError (object_name k @ ''[field].trim is not a function''))"
proof (induction flds arbitrary: acc)
  case Nil
  then show ?case by simp
next
  case (Cons f flds)
  show ?case
  proof (cases "field_throws (obj f)")
    case True
    then show ?thesis by (rule check_step_throws)
  next
    case False
    with Cons.prems have rest: "\<exists>f \<in> set flds. field_throws (obj f)" by simp
    from False field_cases[of "obj f"] consider "field_missing (obj f)" | "field_filled (obj f)"
      by blast
    then show ?thesis
    proof cases
      case 1
      then show ?thesis by (simp only: check_step_missing[where obj = obj and field = f, OF 1] Cons.IH[OF rest])
    next
      case 2
      then show ?thesis by (simp only: check_step_filled[where obj = obj and field = f, OF 2] Cons.IH[OF rest])
    qed
  qed
qed

lemma checkRequired_fields:
  "checkRequired k obj (requiredFields k) [] =
     (if \<exists>f \<in> set (requiredFields k). field_throws (obj f)
        then Inl (TypeError (object_name k @ ''[field].trim is not a function''))
      else Inr (missingFields k obj))"
  by (simp add: checkRequired_throw checkRequired_no_throw missingFields_def)

lemma missingFields_set:
  "set (missingFields k obj) = {f \<in> set (requiredFields k). field_missing (obj f)}"
  by (simp add: missingFields_def)

lemma missingFields_Nil_iff:
  "missingFields k obj = [] \<longleftrightarrow> (\<forall>f \<in> set (requiredFields k). \<not> field_missing (obj f))"
  by (auto simp: missingFields_def filter_empty_conv)

lemma validateData_throws:
  "\<exists>f \<in> set (requiredFields k). field_throws (obj f) \<Longrightarrow>
   validateData k obj = Inl (TypeError (object_name k @ ''[field].trim is not a function''))"
  by (simp add: validateData_def checkRequired_fields)

lemma validateData_missing:
  "\<forall>f \<in> set (requiredFields k). \<not> field_throws (obj f) \<Longrightarrow> missingFields k obj \<noteq> [] \<Longrightarrow>
   validateData k obj =
     Inl (Error (''Missing required fields: '' @ join '', '' (missingFields k obj)))"
  by (simp add: validateData_def checkRequired_fields)

lemma required_date: "''date'' \<in> set (requiredFields k)"
  by (cases k) (simp_all add: requiredFields_def)

lemma required_serialNumber: "''serialNumber'' \<in> set (requiredFields k)"
  by (cases k) (simp_all add: requiredFields_def)

lemma required_idNumber: "''idNumber'' \<in> set (requiredFields k)"
  by (cases k) (simp_all add: requiredFields_def)

lemma all_filled_iff:
  "(\<forall>f \<in> set (requiredFields k). field_filled (obj f)) \<longleftrightarrow>
     (\<forall>f \<in> set (requiredFields k). \<not> field_throws (obj f)) \<and> missingFields k obj = []"
proof
  assume "\<forall>f \<in> set (requiredFields k). field_filled (obj f)"
  then show "(\<forall>f \<in> set (requiredFields k). \<not> field_throws (obj f)) \<and> missingFields k obj = []"
    by (auto simp: missingFields_Nil_iff dest: field_filled_not_missing)
next
  assume a: "(\<forall>f \<in> set (requiredFields k). \<not> field_throws (obj f)) \<and> missingFields k obj = []"
  show "\<forall>f \<in> set (requiredFields k). field_filled (obj f)"
  proof
    fix f assume f: "f \<in> set (requiredFields k)"
    with a have "\<not> field_throws (obj f)" "\<not> field_missing (obj f)"
      by (simp_all add: missingFields_Nil_iff)
    with field_cases[of "obj f"] show "field_filled (obj f)" by blast
  qed
qed

lemma validateData_filled:
  assumes "\<forall>f \<in> set (requiredFields k). field_filled (obj f)"
    and "obj ''idNumber'' = Some (JString idNumber)"
  shows "validateData k obj =
     (if \<not> idPattern_test idNumber then Inl (Error (invalid_id_message k))
      else if \<not> truthy (obj ''frontPhoto'') \<or> \<not> truthy (obj ''backPhoto'')
        then Inl (Error ''Both front and back ID photos are required'')
      else Inr True)"
proof -
  from assms(1) have "\<not> (\<exists>f \<in> set (requiredFields k). field_throws (obj f))"
    and "missingFields k obj = []"
    by (simp_all add: all_filled_iff)
  then show ?thesis
    using assms(2) by (simp add: validateData_def checkRequired_fields interpolate_def)
qed

lemma validateData_outcomes:
  obtains (throws) "\<exists>f \<in> set (requiredFields k). field_throws (obj f)"
      "validateData k obj = Inl (TypeError (object_name k @ ''[field].trim is not a function''))"
    | (missing) "\<forall>f \<in> set (requiredFields k). \<not> field_throws (obj f)"
      "missingFields k obj \<noteq> []"
      "validateData k obj =
         Inl (Error (''Missing required fields: '' @ join '', '' (missingFields k obj)))"
    | (filled) s where "\<forall>f \<in> set (requiredFields k). field_filled (obj f)"
      "obj ''idNumber'' = Some (JString s)"
proof (cases "\<exists>f \<in> set (requiredFields k). field_throws (obj f)")
  case True
  then show ?thesis using validateData_throws[OF True] throws by blast
next
  case nt: False
  show ?thesis
  proof (cases "missingFields k obj = []")
    case True
    with nt have fl: "\<forall>f \<in> set (requiredFields k). field_filled (obj f)"
      by (simp add: all_filled_iff)
    with required_idNumber[of k] have "field_filled (obj ''idNumber'')" by blast
    then obtain s where "obj ''idNumber'' = Some (JString s)"
      by (auto simp: field_filled_iff)
    with fl show ?thesis by (rule filled)
  next
    case False
    from nt have n: "\<forall>f \<in> set (requiredFields k). \<not> field_throws (obj f)" by simp
    show ?thesis by (rule missing[OF n False validateData_missing[OF n False]])
  qed
qed

lemma validateData_Inr:
  "validateData k obj = Inr b \<longleftrightarrow>
     b \<and> (\<forall>f \<in> set (requiredFields k). field_filled (obj f)) \<and>
     (\<exists>s. obj ''idNumber'' = Some (JString s) \<and> idPattern_test s) \<and>
     truthy (obj ''frontPhoto'') \<and> truthy (obj ''backPhoto'')"
proof (cases rule: validateData_outcomes[of k obj])
  case throws
  then show ?thesis using field_filled_not_missing by auto
next
  case missing
  then show ?thesis by (auto simp: all_filled_iff)
next
  case (filled s)
  then show ?thesis by (auto simp: validateData_filled[OF filled])
qed

lemma validateData_message:
  "validateData k obj = Inl e \<Longrightarrow> message e \<noteq> []"
proof (cases rule: validateData_outcomes[of k obj])
  case throws
  then show "validateData k obj = Inl e \<Longrightarrow> message e \<noteq> []" by auto
next
  case missing
  then show "validateData k obj = Inl e \<Longrightarrow> message e \<noteq> []" by auto
next
  case (filled s)
  then show "validateData k obj = Inl e \<Longrightarrow> message e \<noteq> []"
    by (auto simp: validateData_filled[OF filled] invalid_id_message_def
        split: if_splits kind.splits)
qed

subsection \<open>Serial numbers and the identity number pattern\<close>

lemma sublist_join: "x \<in> set xs \<Longrightarrow> sublist x (join sep xs)"
proof (induction sep xs rule: join.induct)
  case (1 sep)
  then show ?case by simp
next
  case (2 sep y)
  then show ?case by simp
next
  case (3 sep y z zs)
  show ?case
  proof (cases "x = y")
    case True
    then show ?thesis by (simp add: sublist_append_rightI)
  next
    case False
    with 3 have "sublist x (join sep (z # zs))" by simp
    moreover have "sublist (join sep (z # zs)) ((y @ sep) @ join sep (z # zs))"
      by (rule sublist_append_leftI)
    ultimately have "sublist x ((y @ sep) @ join sep (z # zs))"
      by (rule sublist_order.order.trans)
    then show ?thesis by simp
  qed
qed

lemma digit_cases:
  "d < 10 \<Longrightarrow> d \<in> set [0, 1, 2, 3, 4, 5, 6, 7, 8, (9::nat)]"
  by (simp add: numeral_eq_Suc less_Suc_eq)

lemma digit_value_digit_char: "d < 10 \<Longrightarrow> digit_value (digit_char d) = d"
  using digit_cases[of d] by (auto simp: digit_value_def digit_char_def)

lemma is_digit_digit_char: "d < 10 \<Longrightarrow> is_digit (digit_char d)"
  unfolding is_digit_def digit_char_def by (rule nth_mem) simp

lemma decimal_value_toString: "decimal_value (toString n) = n"
proof (induction n rule: toString.induct)
  case (1 n)
  show ?case
  proof (cases "n < 10")
    case True
    then show ?thesis
      by (simp add: toString.simps[of n] decimal_value_def digit_value_digit_char)
  next
    case False
    with 1 have "decimal_value (toString (n div 10)) = n div 10" by simp
    with False show ?thesis
      by (simp add: toString.simps[of n] decimal_value_def digit_value_digit_char)
  qed
qed

lemma digit_value_zero: "digit_value (CHR ''0'') = 0"
  by (simp add: digit_value_def)

lemma decimal_value_zeros: "decimal_value (replicate m (CHR ''0'') @ s) = decimal_value s"
  unfolding decimal_value_def
  by (induction m) (simp_all add: digit_value_zero)

lemma decimal_value_serial: "decimal_value (serial n) = n"
  by (simp add: serial_def padStart_def decimal_value_zeros decimal_value_toString)

lemma serial_inj:
  assumes "serial m = serial n"
  shows "m = n"
proof -
  from assms have "decimal_value (serial m) = decimal_value (serial n)"
    by (rule arg_cong)
  then show ?thesis by (simp only: decimal_value_serial)
qed

lemma digits_toString: "list_all is_digit (toString n)"
proof (induction n rule: toString.induct)
  case (1 n)
  show ?case
  proof (cases "n < 10")
    case True
    then show ?thesis by (simp add: toString.simps[of n] is_digit_digit_char)
  next
    case False
    with 1 have "list_all is_digit (toString (n div 10))" by simp
    with False show ?thesis by (simp add: toString.simps[of n] is_digit_digit_char)
  qed
qed

lemma digits_zeros: "list_all is_digit (replicate m (CHR ''0''))"
  by (induction m) (simp_all add: is_digit_def)

lemma digits_serial: "list_all is_digit (serial n)"
  by (simp add: serial_def padStart_def digits_toString digits_zeros)

lemma length_toString: "0 < m \<Longrightarrow> n < 10 ^ m \<Longrightarrow> length (toString n) \<le> m"
proof (induction n arbitrary: m rule: toString.induct)
  case (1 n)
  show ?case
  proof (cases "n < 10")
    case True
    with 1(2) show ?thesis by (simp add: toString.simps[of n])
  next
    case False
    from 1(2) 1(3) False have "1 < m" by (cases "m = 1") auto
    then obtain m' where m: "m = Suc m'" and "0 < m'" by (cases m) auto
    from 1(3) m have "n < 10 ^ m' * 10" by simp
    then have "n div 10 < 10 ^ m'" by (rule less_mult_imp_div_less)
    with 1(1)[OF False \<open>0 < m'\<close>] have "length (toString (n div 10)) \<le> m'" by simp
    with False m show ?thesis by (simp add: toString.simps[of n])
  qed
qed

lemma length_serial: "n < 10000 \<Longrightarrow> length (serial n) = 4"
  using length_toString[of 4 n] by (simp add: serial_def padStart_def)

lemma serial_digit: "n < 10 \<Longrightarrow> serial n = [CHR ''0'', CHR ''0'', CHR ''0'', digit_char n]"
  by (simp add: serial_def padStart_def toString.simps numeral_eq_Suc)

lemma idPattern_test_iff:
  "idPattern_test s \<longleftrightarrow>
     (\<exists>a b c. s = ''784-'' @ a @ ''-'' @ b @ ''-'' @ [c] \<and> length a = 4 \<and> length b = 7 \<and>
        list_all is_digit a \<and> list_all is_digit b \<and> is_digit c)"
proof
  assume "idPattern_test s"
  then obtain r1 r2 r3 r4 r5 where
    m1: "match_literal ''784-'' s = Some r1" and
    m2: "match_digits 4 r1 = Some r2" and
    m3: "match_literal ''-'' r2 = Some r3" and
    m4: "match_digits 7 r3 = Some r4" and
    m5: "match_literal ''-'' r4 = Some r5" and
    m6: "match_digits 1 r5 = Some []"
    by (auto simp: idPattern_test_def Option.bind_eq_Some_conv)
  from m1 have s: "s = ''784-'' @ r1"
    by (metis append_take_drop_id match_literal_def option.distinct(1) option.sel)
  from m2 have r1: "r1 = take 4 r1 @ r2" "length (take 4 r1) = 4" "list_all is_digit (take 4 r1)"
    by (auto simp: match_digits_def split: if_splits)
  from m3 have r2: "r2 = ''-'' @ r3"
    by (metis append_take_drop_id match_literal_def option.distinct(1) option.sel)
  from m4 have r3: "r3 = take 7 r3 @ r4" "length (take 7 r3) = 7" "list_all is_digit (take 7 r3)"
    by (auto simp: match_digits_def split: if_splits)
  from m5 have r4: "r4 = ''-'' @ r5"
    by (metis append_take_drop_id match_literal_def option.distinct(1) option.sel)
  from m6 have r5: "length r5 = 1" "list_all is_digit r5"
    by (auto simp: match_digits_def split: if_splits)
  then obtain c where c: "r5 = [c]" "is_digit c"
    by (cases r5) auto
  have "s = ''784-'' @ take 4 r1 @ ''-'' @ take 7 r3 @ ''-'' @ [c]"
    using s r1(1) r2 r3(1) r4 c(1) by (metis append_assoc)
  with r1 r3 c show "\<exists>a b c. s = ''784-'' @ a @ ''-'' @ b @ ''-'' @ [c] \<and> length a = 4 \<and>
      length b = 7 \<and> list_all is_digit a \<and> list_all is_digit b \<and> is_digit c"
    by blast
next
  assume "\<exists>a b c. s = ''784-'' @ a @ ''-'' @ b @ ''-'' @ [c] \<and> length a = 4 \<and> length b = 7 \<and>
        list_all is_digit a \<and> list_all is_digit b \<and> is_digit c"
  then obtain a b c where s: "s = ''784-'' @ a @ ''-'' @ b @ ''-'' @ [c]"
    and l: "length a = 4" "length b = 7"
    and d: "list_all is_digit a" "list_all is_digit b" "is_digit c" by blast
  have 1: "match_literal ''784-'' s = Some (a @ ''-'' @ b @ ''-'' @ [c])"
    by (simp add: match_literal_def s)
  have 2: "match_digits 4 (a @ ''-'' @ b @ ''-'' @ [c]) = Some (''-'' @ b @ ''-'' @ [c])"
    using l d by (simp add: match_digits_def)
  have 3: "match_literal ''-'' (''-'' @ b @ ''-'' @ [c]) = Some (b @ ''-'' @ [c])"
    by (simp add: match_literal_def)
  have 4: "match_digits 7 (b @ ''-'' @ [c]) = Some (''-'' @ [c])"
    using l d by (simp add: match_digits_def)
  have 5: "match_literal ''-'' (''-'' @ [c]) = Some [c]"
    by (simp add: match_literal_def)
  have 6: "match_digits 1 [c] = Some []"
    using d by (simp add: match_digits_def)
  show "idPattern_test s"
    unfolding idPattern_test_def by (simp only: 1 2 3 4 5 6 Option.bind.simps)
qed

subsection \<open>Create: the outcomes of the handler\<close>

lemma createRecord_invalid:
  "validateData k body = Inl e \<Longrightarrow>
   createRecord k today body st = (Failure 400 (message e), st)"
  by (simp add: createRecord_def create_error_def validateData_message)

lemma valid_date:
  assumes "validateData k body = Inr True"
  shows "truthy (body ''date'')"
proof -
  from assms required_date[of k] have "field_filled (body ''date'')"
    by (simp add: validateData_Inr)
  then show ?thesis by (rule field_filled_truthy)
qed

lemma createRecord_valid:
  assumes v: "validateData k body = Inr True"
    and fp: "body ''frontPhoto'' = Some (JString fp)"
    and bp: "body ''backPhoto'' = Some (JString bp)"
    and n: "n = length (loadRecords k st) + 1"
  shows "createRecord k today body st =
     (if io_fault st (photo_path k (serial n) ''front'')
        then (Failure 400 (create_error k (SystemError
               (''EACCES: permission denied, open '' @ photo_path k (serial n) ''front''))), st)
      else if io_fault st (photo_path k (serial n) ''back'')
        then (Failure 400 (create_error k (SystemError
               (''EACCES: permission denied, open '' @ photo_path k (serial n) ''back''))),
              st\<lparr>photos := (photos st)
                (photo_path k (serial n) ''front'' \<mapsto> strip_data_uri fp)\<rparr>)
      else if io_fault st (collection_file k)
        then (Failure 400 (create_error k (SystemError
               (''EACCES: permission denied, open '' @ collection_file k))),
              st\<lparr>photos := (photos st)
                (photo_path k (serial n) ''front'' \<mapsto> strip_data_uri fp,
                 photo_path k (serial n) ''back'' \<mapsto> strip_data_uri bp)\<rparr>)
      else (Created (stored_record k today body n),
            st\<lparr>photos := (photos st)
                  (photo_path k (serial n) ''front'' \<mapsto> strip_data_uri fp,
                   photo_path k (serial n) ''back'' \<mapsto> strip_data_uri bp),
               data_files := (data_files st)(k := Some (loadRecords k st @
                  [stored_record k today body n]))\<rparr>))"
proof (cases k)
  case Visitor
  then show ?thesis using v fp bp n
    by (simp add: createRecord_def Let_def string_method_def fs_writeFile_def saveRecords_def
        stored_record_def)
next
  case Key
  then show ?thesis using v fp bp n valid_date[OF v]
    by (simp add: createRecord_def Let_def string_method_def fs_writeFile_def saveRecords_def
        stored_record_def)
qed

lemma createRecord_photo_throws:
  assumes v: "validateData k body = Inr True"
    and p: "field_throws (body ''frontPhoto'') \<or>
       (\<exists>fp. body ''frontPhoto'' = Some (JString fp)) \<and> field_throws (body ''backPhoto'')"
  shows "\<exists>m. createRecord k today body st = (Failure 400 m, st)"
proof (cases k)
  case Visitor
  then show ?thesis using v p
    by (auto simp: createRecord_def Let_def string_method_def field_throws_def
        split: option.splits jsval.splits)
next
  case Key
  then show ?thesis using v p valid_date[OF v]
    by (auto simp: createRecord_def Let_def string_method_def field_throws_def
        split: option.splits jsval.splits)
qed

lemma photo_cases:
  assumes "truthy v"
  obtains (string) s where "v = Some (JString s)" "s \<noteq> []" | (other) "field_throws v"
  using assms
  by (cases v) (auto simp: truthy_def field_throws_def split: jsval.splits)

lemma createRecord_Created_iff:
  assumes "createRecord k today body st = (Created r, st')"
  shows "validateData k body = Inr True \<and>
     (\<exists>fp. body ''frontPhoto'' = Some (JString fp)) \<and>
     (\<exists>bp. body ''backPhoto'' = Some (JString bp)) \<and>
     r = stored_record k today body (length (loadRecords k st) + 1) \<and>
     loadRecords k st' = loadRecords k st @ [r]"
proof -
  have v: "validateData k body = Inr True"
  proof (cases "validateData k body")
    case (Inl e)
    then show ?thesis using assms by (simp add: createRecord_invalid)
  next
    case (Inr b)
    then show ?thesis by (simp add: validateData_Inr)
  qed
  then have t: "truthy (body ''frontPhoto'')" "truthy (body ''backPhoto'')"
    by (simp_all add: validateData_Inr)
  from t(1) obtain fp where fp: "body ''frontPhoto'' = Some (JString fp)"
  proof (cases rule: photo_cases)
    case (string s)
    then show ?thesis using that by blast
  next
    case other
    with createRecord_photo_throws[OF v, of today st] assms show ?thesis by auto
  qed
  from t(2) obtain bp where bp: "body ''backPhoto'' = Some (JString bp)"
  proof (cases rule: photo_cases)
    case (string s)
    then show ?thesis using that by blast
  next
    case other
    with createRecord_photo_throws[OF v, of today st] fp assms show ?thesis by auto
  qed
  from createRecord_valid[OF v fp bp refl, where today = today and st = st] assms v fp bp
  show ?thesis
    by (auto simp: loadRecords_def split: if_splits)
qed

lemma checkRequired_serial_irrelevant:
  assumes "field_filled (Some x)" and "field_filled (body ''serialNumber'')"
  shows "checkRequired k (body(''serialNumber'' \<mapsto> x)) flds acc = checkRequired k body flds acc"
proof (induction flds arbitrary: acc)
  case Nil
  then show ?case by simp
next
  case (Cons f flds)
  show ?case
  proof (cases "f = ''serialNumber''")
    case True
    have a: "field_filled ((body(''serialNumber'' \<mapsto> x)) f)" using assms(1) True by simp
    have b: "field_filled (body f)" using assms(2) True by simp
    show ?thesis
      by (simp only: check_step_filled[where obj = "body(''serialNumber'' \<mapsto> x)" and field = f, OF a]
          check_step_filled[where obj = body and field = f, OF b] Cons.IH)
  next
    case False
    then have e: "(body(''serialNumber'' \<mapsto> x)) f = body f" by simp
    show ?thesis by (simp only: checkRequired.simps e Cons.IH)
  qed
qed

lemma validateData_serial_irrelevant:
  assumes "field_filled (Some x)" and "field_filled (body ''serialNumber'')"
  shows "validateData k (body(''serialNumber'' \<mapsto> x)) = validateData k body"
proof -
  have c: "checkRequired k (body(''serialNumber'' \<mapsto> x)) (requiredFields k) [] =
      checkRequired k body (requiredFields k) []"
    using assms by (rule checkRequired_serial_irrelevant[where x = x and body = body])
  have o: "(body(''serialNumber'' \<mapsto> x)) ''idNumber'' = body ''idNumber''"
    "(body(''serialNumber'' \<mapsto> x)) ''frontPhoto'' = body ''frontPhoto''"
    "(body(''serialNumber'' \<mapsto> x)) ''backPhoto'' = body ''backPhoto''"
    by simp_all
  show ?thesis by (simp only: validateData_def c o)
qed

lemma createRecord_no_fault:
  assumes "validateData k body = Inr True"
    and "body ''frontPhoto'' = Some (JString fp)" and "body ''backPhoto'' = Some (JString bp)"
    and "n = length (loadRecords k st) + 1"
    and "io_fault st = (\<lambda>p. False)"
  shows "createRecord k today body st =
     (Created (stored_record k today body n), snd (createRecord k today body st))"
  by (simp add: createRecord_valid[OF assms(1-4)] assms(5))

lemma create_failure_keeps_collection:
  assumes "fst (createRecord k today body st) = Failure c m"
  shows "data_files (snd (createRecord k today body st)) = data_files st"
proof (cases "validateData k body")
  case (Inl e)
  then show ?thesis by (simp add: createRecord_invalid)
next
  case (Inr b)
  then have v: "validateData k body = Inr True" by (simp add: validateData_Inr)
  then have t: "truthy (body ''frontPhoto'')" "truthy (body ''backPhoto'')"
    by (simp_all add: validateData_Inr)
  show ?thesis
  proof (cases "\<exists>fp bp. body ''frontPhoto'' = Some (JString fp) \<and> body ''backPhoto'' = Some (JString bp)")
    case True
    then obtain fp bp where p: "body ''frontPhoto'' = Some (JString fp)"
      "body ''backPhoto'' = Some (JString bp)" by blast
    from assms show ?thesis
      by (simp add: createRecord_valid[OF v p refl] split: if_splits)
  next
    case False
    with t have "field_throws (body ''frontPhoto'') \<or>
       (\<exists>fp. body ''frontPhoto'' = Some (JString fp)) \<and> field_throws (body ''backPhoto'')"
      by (auto elim!: photo_cases)
    from createRecord_photo_throws[OF v this, of today st] show ?thesis by auto
  qed
qed

subsection \<open>The concrete stores in closed form\<close>

lemmas string_eval = field_filled_def field_missing_def field_throws_def truthy_def trim_def
  js_whitespace_def

lemmas pattern_eval = idPattern_test_def match_literal_def match_digits_def is_digit_def

lemma filled_visitor_form:
  "field_filled (Some (JString name)) \<Longrightarrow>
   \<forall>f \<in> set (requiredFields Visitor). field_filled (visitor_form name front back f)"
  by (simp add: requiredFields_def visitor_form_def)
     (simp add: field_filled_def trim_def js_whitespace_def)

lemma valid_visitor_form:
  assumes "field_filled (Some (JString name))" and "front \<noteq> []" and "back \<noteq> []"
  shows "validateData Visitor (visitor_form name front back) = Inr True"
proof -
  have i: "visitor_form name front back ''idNumber'' = Some (JString ''784-1234-1234567-1'')"
    by (simp add: visitor_form_def)
  have t: "idPattern_test ''784-1234-1234567-1''" by (simp add: pattern_eval)
  have p: "truthy (visitor_form name front back ''frontPhoto'')"
    "truthy (visitor_form name front back ''backPhoto'')"
    using assms(2,3) by (simp_all add: visitor_form_def truthy_def)
  show ?thesis
    by (simp add: validateData_filled[OF filled_visitor_form[OF assms(1)] i] t p)
qed

lemma valid_ann: "validateData Visitor ann = Inr True"
  unfolding ann_def by (rule valid_visitor_form) (simp_all add: string_eval)

lemma valid_bob: "validateData Visitor bob = Inr True"
  unfolding bob_def by (rule valid_visitor_form) (simp_all add: string_eval)

lemma valid_cyd: "validateData Visitor cyd = Inr True"
  unfolding cyd_def by (rule valid_visitor_form) (simp_all add: string_eval)

lemma valid_key_form: "validateData Key key_form = Inr True"
proof -
  have f: "\<forall>f \<in> set (requiredFields Key). field_filled (key_form f)"
    by (simp add: requiredFields_def key_form_def string_eval)
  have i: "key_form ''idNumber'' = Some (JString ''784-1234-1234567-1'')"
    by (simp add: key_form_def)
  show ?thesis
    by (simp add: validateData_filled[OF f i] pattern_eval) (simp add: key_form_def truthy_def)
qed

lemma photos_ann:
  "ann ''frontPhoto'' = Some (JString ''data:image/jpeg;base64,QUFB'')"
  "ann ''backPhoto'' = Some (JString ''data:image/jpeg;base64,YWFh'')"
  by (simp_all add: ann_def visitor_form_def)

lemma photos_bob:
  "bob ''frontPhoto'' = Some (JString ''data:image/jpeg;base64,QkJC'')"
  "bob ''backPhoto'' = Some (JString ''data:image/jpeg;base64,YmJi'')"
  by (simp_all add: bob_def visitor_form_def)

lemma photos_cyd:
  "cyd ''frontPhoto'' = Some (JString ''data:image/jpeg;base64,Q0ND'')"
  "cyd ''backPhoto'' = Some (JString ''data:image/jpeg;base64,Y2Nj'')"
  by (simp_all add: cyd_def visitor_form_def)

lemma photos_key_form:
  "key_form ''frontPhoto'' = Some (JString ''data:image/png;base64,RlJPTlQ='')"
  "key_form ''backPhoto'' = Some (JString ''QkFDSw=='')"
  by (simp_all add: key_form_def)

lemma create_ann:
  "createRecord Visitor day ann empty_store = (Created (stored_record Visitor day ann 1), store_1)"
proof -
  have n: "1 = length (loadRecords Visitor empty_store) + 1"
    by (simp add: loadRecords_def empty_store_def)
  show ?thesis
    unfolding store_1_def
    by (rule createRecord_no_fault[OF valid_ann photos_ann n]) (simp add: empty_store_def)
qed

lemma create_key_form:
  "createRecord Key day key_form empty_store =
     (Created (stored_record Key day key_form 1), snd (createRecord Key day key_form empty_store))"
proof -
  have n: "1 = length (loadRecords Key empty_store) + 1"
    by (simp add: loadRecords_def empty_store_def)
  show ?thesis
    by (rule createRecord_no_fault[OF valid_key_form photos_key_form n])
       (simp add: empty_store_def)
qed

lemma store_1_eq:
  "store_1 = \<lparr>data_files = (\<lambda>k. Some [])(Visitor := Some [stored_record Visitor day ann 1]),
     photos = [photo_path Visitor (serial 1) ''front'' \<mapsto> ''QUFB'',
               photo_path Visitor (serial 1) ''back'' \<mapsto> ''YWFh''],
     io_fault = (\<lambda>p. False)\<rparr>"
proof -
  have n: "1 = length (loadRecords Visitor empty_store) + 1"
    by (simp add: loadRecords_def empty_store_def)
  show ?thesis
    unfolding store_1_def
    by (simp add: createRecord_valid[OF valid_ann photos_ann n])
       (simp add: empty_store_def loadRecords_def strip_data_uri_def match_literal_def is_word_char_def)
qed

lemma store_2_eq:
  "store_2 = \<lparr>data_files = (\<lambda>k. Some [])(Visitor :=
       Some [stored_record Visitor day ann 1, stored_record Visitor day bob 2]),
     photos = [photo_path Visitor (serial 1) ''front'' \<mapsto> ''QUFB'',
               photo_path Visitor (serial 1) ''back'' \<mapsto> ''YWFh'',
               photo_path Visitor (serial 2) ''front'' \<mapsto> ''QkJC'',
               photo_path Visitor (serial 2) ''back'' \<mapsto> ''YmJi''],
     io_fault = (\<lambda>p. False)\<rparr>"
proof -
  have n: "2 = length (loadRecords Visitor store_1) + 1"
    by (simp add: loadRecords_def store_1_eq)
  show ?thesis
    unfolding store_2_def
    by (simp add: createRecord_valid[OF valid_bob photos_bob n])
       (simp add: store_1_eq loadRecords_def strip_data_uri_def match_literal_def is_word_char_def)
qed

lemma store_3_eq:
  "store_3 = \<lparr>data_files = (\<lambda>k. Some [])(Visitor :=
       Some [stored_record Visitor day ann 1, stored_record Visitor day bob 2,
             stored_record Visitor day cyd 3]),
     photos = [photo_path Visitor (serial 1) ''front'' \<mapsto> ''QUFB'',
               photo_path Visitor (serial 1) ''back'' \<mapsto> ''YWFh'',
               photo_path Visitor (serial 2) ''front'' \<mapsto> ''QkJC'',
               photo_path Visitor (serial 2) ''back'' \<mapsto> ''YmJi'',
               photo_path Visitor (serial 3) ''front'' \<mapsto> ''Q0ND'',
               photo_path Visitor (serial 3) ''back'' \<mapsto> ''Y2Nj''],
     io_fault = (\<lambda>p. False)\<rparr>"
proof -
  have n: "3 = length (loadRecords Visitor store_2) + 1"
    by (simp add: loadRecords_def store_2_eq)
  show ?thesis
    unfolding store_3_def
    by (simp add: createRecord_valid[OF valid_cyd photos_cyd n])
       (simp add: store_2_eq loadRecords_def strip_data_uri_def match_literal_def is_word_char_def)
qed

lemma records_store_3:
  "loadRecords Visitor store_3 =
     [stored_record Visitor day ann 1, stored_record Visitor day bob 2,
      stored_record Visitor day cyd 3]"
  by (simp add: loadRecords_def store_3_eq)

lemma serials_store_3:
  "stored_record Visitor day ann 1 ''serialNumber'' = Some (JString ''0001'')"
  "stored_record Visitor day ann (Suc 0) ''serialNumber'' = Some (JString ''0001'')"
  "stored_record Visitor day bob 2 ''serialNumber'' = Some (JString ''0002'')"
  "stored_record Visitor day cyd 3 ''serialNumber'' = Some (JString ''0003'')"
  by (simp_all add: stored_record_def serial_digit digit_char_def)

lemmas path_eval = photo_path_def path_join_def PHOTOS_DIR_def DATA_DIR_def photo_name_def
  serial_digit digit_char_def

subsection \<open>Create: serial numbers\<close>

text \<open>
  Claim C3. A create that succeeds on a collection of \<open>n\<close> records stores the record
  with \<open>serialNumber\<close> equal to \<open>n + 1\<close> rendered by \<open>toString\<close> and \<open>padStart(4, '0')\<close>:
  a string of decimal digits denoting \<open>n + 1\<close>, four characters long up to 9999. The
  record is appended to the collection. The serial number of the request body has no
  influence: any other supplied value that passes the presence check gives the same
  stored record and the same store.
\<close>

theorem create_assigns_next_serial:
  assumes "createRecord k today body st = (Created r, st')"
  shows "r ''serialNumber'' = Some (JString (serial (length (loadRecords k st) + 1))) \<and>
     loadRecords k st' = loadRecords k st @ [r] \<and>
     decimal_value (serial (length (loadRecords k st) + 1)) = length (loadRecords k st) + 1 \<and>
     list_all is_digit (serial (length (loadRecords k st) + 1)) \<and>
     (length (loadRecords k st) + 1 < 10000 \<longrightarrow>
        length (serial (length (loadRecords k st) + 1)) = 4) \<and>
     (\<forall>x. field_filled (Some x) \<longrightarrow>
        createRecord k today (body(''serialNumber'' \<mapsto> x)) st = (Created r, st'))"
proof -
  note c = createRecord_Created_iff[OF assms]
  have r: "r ''serialNumber'' = Some (JString (serial (length (loadRecords k st) + 1)))"
    using c by (cases k) (simp_all add: stored_record_def)
  have "createRecord k today (body(''serialNumber'' \<mapsto> x)) st = (Created r, st')"
    if x: "field_filled (Some x)" for x
  proof -
    have ns: "field_filled (body ''serialNumber'')"
      using c required_serialNumber[of k] by (simp add: validateData_Inr)
    have "createRecord k today (body(''serialNumber'' \<mapsto> x)) st = createRecord k today body st"
      using validateData_serial_irrelevant[where x = x and body = body and k = k, OF x ns]
      by (cases "validateData k body") (simp_all add: createRecord_def Let_def)
    then show ?thesis using assms by simp
  qed
  then show ?thesis
    using r c by (simp add: decimal_value_serial digits_serial length_serial)
qed

theorem create_assigns_next_serial_witness:
  "createRecord Visitor day cyd store_2 = (Created (stored_record Visitor day cyd 3), store_3) \<and>
   stored_record Visitor day cyd 3 ''serialNumber'' = Some (JString ''0003'') \<and>
   cyd ''serialNumber'' = Some (JString ''0000'') \<and>
   loadRecords Visitor store_3 = loadRecords Visitor store_2 @ [stored_record Visitor day cyd 3] \<and>
   createRecord Visitor day (cyd(''serialNumber'' \<mapsto> JString ''0042'')) store_2 =
     (Created (stored_record Visitor day cyd 3), store_3)"
proof -
  have n: "length (loadRecords Visitor store_2) + 1 = 3"
    by (simp add: loadRecords_def store_2_eq)
  have h: "createRecord Visitor day cyd store_2 =
      (Created (stored_record Visitor day cyd 3), store_3)"
    unfolding store_3_def
    by (rule createRecord_no_fault[OF valid_cyd photos_cyd n[symmetric]]) (simp add: store_2_eq)
  have s: "field_filled (Some (JString ''0042''))"
    by (simp add: string_eval)
  have c: "cyd ''serialNumber'' = Some (JString ''0000'')"
    by (simp add: cyd_def visitor_form_def)
  have len: "length (loadRecords Visitor store_2) = 2"
    by (simp add: loadRecords_def store_2_eq)
  from create_assigns_next_serial[OF h] s c h show ?thesis
    by (simp add: len serial_digit digit_char_def)
qed

subsection \<open>Delete of an unknown serial number, timeout and return\<close>

lemma findIndex_None_iff: "findIndex P xs = None \<longleftrightarrow> (\<forall>x \<in> set xs. \<not> P x)"
  by (induction xs) auto

lemma findIndex_Some:
  "findIndex P xs = Some i \<Longrightarrow> i < length xs \<and> P (xs ! i) \<and> (\<forall>j < i. \<not> P (xs ! j))"
proof (induction xs arbitrary: i)
  case Nil
  then show ?case by simp
next
  case (Cons x xs)
  show ?case
  proof (cases "P x")
    case True
    with Cons.prems show ?thesis by simp
  next
    case False
    with Cons.prems obtain i' where i: "findIndex P xs = Some i'" "i = Suc i'"
      by auto
    from Cons.IH[OF i(1)] False i(2) show ?thesis
      by (auto simp: less_Suc_eq_0_disj)
  qed
qed

lemma findIndex_first:
  "i < length xs \<Longrightarrow> P (xs ! i) \<Longrightarrow> (\<forall>j < i. \<not> P (xs ! j)) \<Longrightarrow> findIndex P xs = Some i"
proof (induction xs arbitrary: i)
  case Nil
  then show ?case by simp
next
  case (Cons x xs)
  show ?case
  proof (cases i)
    case 0
    with Cons.prems show ?thesis by simp
  next
    case (Suc i')
    with Cons.prems have "\<not> P x" by auto
    moreover from Suc Cons.prems have "findIndex P xs = Some i'"
      by (intro Cons.IH) auto
    ultimately show ?thesis using Suc by simp
  qed
qed

text \<open>
  Claim C4. When no record of the collection has the requested serial number,
  delete-with-adjust answers 404 and returns the store it was given: no record is
  removed or renumbered, no file is written.
\<close>

theorem delete_unknown_serial_not_found:
  assumes "\<forall>r \<in> set (loadRecords k st). r ''serialNumber'' \<noteq> Some (JString serialNumber)"
  shows "deleteAdjust k serialNumber st = (Failure 404 (not_found k), st)"
proof -
  from assms have "findIndex (\<lambda>v. v ''serialNumber'' = Some (JString serialNumber)) (loadRecords k st) = None"
    by (simp add: findIndex_None_iff)
  then show ?thesis by (simp add: deleteAdjust_def)
qed

theorem delete_unknown_serial_not_found_witness:
  "deleteAdjust Visitor ''0004'' store_3 = (Failure 404 ''Visitor not found'', store_3) \<and>
   deleteAdjust Key ''0001'' store_3 = (Failure 404 ''Key not found'', store_3)"
proof -
  have v: "\<forall>r \<in> set (loadRecords Visitor store_3). r ''serialNumber'' \<noteq> Some (JString ''0004'')"
    by (simp add: records_store_3 serials_store_3)
  have k: "\<forall>r \<in> set (loadRecords Key store_3). r ''serialNumber'' \<noteq> Some (JString ''0001'')"
    by (simp add: loadRecords_def store_3_eq)
  from delete_unknown_serial_not_found[OF v] delete_unknown_serial_not_found[OF k]
  show ?thesis by (simp add: not_found_def)
qed



subsection \<open>Delete with adjustment\<close>

lemma unlink_photos_id: "unlink_photos k sn st = st"
  by (simp add: unlink_photos_def fs_existsSync_def)

lemma rename_photos_id: "rename_photos k old new st = st"
  by (simp add: rename_photos_def fs_existsSync_def Let_def split: sum.splits)

lemma renumber_Cons:
  "renumber k i (r # rs) st =
     (renumber_record k (i + 1) r # fst (renumber k (i + 1) rs st),
      snd (renumber k (i + 1) rs st))"
  by (simp add: rename_photos_id renumber_record_def Let_def split: prod.splits)

lemma renumber_eq:
  "renumber k i rs st =
     (map (\<lambda>j. renumber_record k (i + j + 1) (rs ! j)) [0..<length rs], st)"
proof (induction rs arbitrary: i st)
  case Nil
  then show ?case by simp
next
  case (Cons r rs)
  have "map (\<lambda>j. renumber_record k (i + j + 1) ((r # rs) ! j)) [0..<length (r # rs)] =
      renumber_record k (i + 1) r #
      map (\<lambda>j. renumber_record k (i + 1 + j + 1) (rs ! j)) [0..<length rs]"
    by (simp add: map_upt_Suc del: upt_Suc)
  then show ?case
    by (simp only: renumber_Cons Cons.IH fst_conv snd_conv)
qed

lemma dense_nth: "dense rs \<Longrightarrow> j < length rs \<Longrightarrow> (rs ! j) ''serialNumber'' = Some (JString (serial (j + 1)))"
proof -
  assume d: "dense rs" and j: "j < length rs"
  have "(rs ! j) ''serialNumber'' = map (\<lambda>r. r ''serialNumber'') rs ! j" using j by simp
  also have "\<dots> = map (\<lambda>j. Some (JString (serial (j + 1)))) [0..<length rs] ! j"
    using d by (simp only: dense_def)
  also have "\<dots> = Some (JString (serial (j + 1)))" using j by simp
  finally show ?thesis .
qed

lemma dense_findIndex:
  assumes "dense rs" and "i < length rs"
  shows "findIndex (\<lambda>v. v ''serialNumber'' = Some (JString (serial (i + 1)))) rs = Some i"
proof (rule findIndex_first)
  show "i < length rs" by fact
  show "(rs ! i) ''serialNumber'' = Some (JString (serial (i + 1)))"
    using assms by (rule dense_nth)
  show "\<forall>j<i. (rs ! j) ''serialNumber'' \<noteq> Some (JString (serial (i + 1)))"
  proof (intro allI impI)
    fix j assume "j < i"
    with assms have "(rs ! j) ''serialNumber'' = Some (JString (serial (j + 1)))"
      by (intro dense_nth) auto
    moreover have "serial (j + 1) \<noteq> serial (i + 1)"
      using \<open>j < i\<close> serial_inj[of "j + 1" "i + 1"] by auto
    ultimately show "(rs ! j) ''serialNumber'' \<noteq> Some (JString (serial (i + 1)))" by simp
  qed
qed

lemma deleteAdjust_found:
  assumes "findIndex (\<lambda>v. v ''serialNumber'' = Some (JString sn)) (loadRecords k st) = Some i"
  shows "deleteAdjust k sn st =
     (if io_fault st (collection_file k)
        then (Failure 500 (case k of
                Visitor \<Rightarrow> ''Failed to delete visitor and adjust serial numbers''
              | Key \<Rightarrow> ''Failed to delete key''), st)
      else (Deleted (length (loadRecords k st) - 1),
            st\<lparr>data_files := (data_files st)(k := Some
              (map (\<lambda>j. renumber_record k (j + 1)
                     ((take i (loadRecords k st) @ drop (Suc i) (loadRecords k st)) ! j))
                 [0..<length (loadRecords k st) - 1]))\<rparr>))"
proof -
  from findIndex_Some[OF assms] have "i < length (loadRecords k st)" by simp
  then have l: "length (take i (loadRecords k st) @ drop (Suc i) (loadRecords k st)) =
      length (loadRecords k st) - 1" by simp
  show ?thesis
    using assms
    by (simp add: deleteAdjust_def Let_def unlink_photos_id renumber_eq saveRecords_def l
        del: upt_Suc length_append length_take length_drop)
qed

lemma deleteAdjust_photos: "photos (snd (deleteAdjust k sn st)) = photos st"
proof (cases "findIndex (\<lambda>v. v ''serialNumber'' = Some (JString sn)) (loadRecords k st)")
  case None
  then show ?thesis by (simp add: deleteAdjust_def)
next
  case (Some i)
  then show ?thesis by (simp add: deleteAdjust_found)
qed

text \<open>
  Claim C1. For a collection whose serial numbers are those of the positions (\<open>0001\<close>
  onwards) and a collection file that can be written, delete-with-adjust of the serial
  number of position \<open>i\<close> answers with the remaining count, one less than before, and
  writes a collection of that length whose serial numbers are again those of the
  positions. The record at a position before \<open>i\<close> comes from the same position, the
  record at a later position from the next one, so exactly the record at \<open>i\<close> is gone
  and the order of the others is kept; each keeps every field but the serial number and
  the two photo references, which are set from the new serial number. The other
  collection is as before.
\<close>

theorem delete_adjust_renumbers:
  assumes "dense (loadRecords k st)"
    and "i < length (loadRecords k st)"
    and "\<not> io_fault st (collection_file k)"
  shows "fst (deleteAdjust k (serial (i + 1)) st) = Deleted (length (loadRecords k st) - 1) \<and>
     length (loadRecords k (snd (deleteAdjust k (serial (i + 1)) st))) =
       length (loadRecords k st) - 1 \<and>
     map (\<lambda>r. r ''serialNumber'') (loadRecords k (snd (deleteAdjust k (serial (i + 1)) st))) =
       map (\<lambda>j. Some (JString (serial (j + 1)))) [0..<length (loadRecords k st) - 1] \<and>
     dense (loadRecords k (snd (deleteAdjust k (serial (i + 1)) st))) \<and>
     (\<forall>j < length (loadRecords k st) - 1.
        loadRecords k (snd (deleteAdjust k (serial (i + 1)) st)) ! j =
          renumber_record k (j + 1)
            (if j < i then loadRecords k st ! j else loadRecords k st ! (j + 1))) \<and>
     (\<forall>j < length (loadRecords k st) - 1. \<forall>f.
        f \<noteq> ''serialNumber'' \<and> f \<noteq> ''frontPhoto'' \<and> f \<noteq> ''backPhoto'' \<longrightarrow>
        (loadRecords k (snd (deleteAdjust k (serial (i + 1)) st)) ! j) f =
          (if j < i then loadRecords k st ! j else loadRecords k st ! (j + 1)) f) \<and>
     (\<forall>k'. k' \<noteq> k \<longrightarrow>
        data_files (snd (deleteAdjust k (serial (i + 1)) st)) k' = data_files st k')"
proof -
  let ?rs = "loadRecords k st"
  let ?sp = "take i ?rs @ drop (Suc i) ?rs"
  let ?new = "map (\<lambda>j. renumber_record k (j + 1) (?sp ! j)) [0..<length ?rs - 1]"
  let ?st' = "snd (deleteAdjust k (serial (i + 1)) st)"
  have run: "deleteAdjust k (serial (i + 1)) st =
      (Deleted (length ?rs - 1), st\<lparr>data_files := (data_files st)(k := Some ?new)\<rparr>)"
    using deleteAdjust_found[OF dense_findIndex[OF assms(1,2)]] assms(3) by simp
  have new: "loadRecords k ?st' = ?new"
    by (simp only: run snd_conv) (simp add: loadRecords_def)
  have sp: "?sp ! j = (if j < i then ?rs ! j else ?rs ! (j + 1))"
    if "j < length ?rs - 1" for j
    using that assms(2) by (auto simp: nth_append min_def)
  have nth: "?new ! j = renumber_record k (j + 1) (if j < i then ?rs ! j else ?rs ! (j + 1))"
    if "j < length ?rs - 1" for j
    using that sp[OF that] by simp
  have ser: "map (\<lambda>r. r ''serialNumber'') ?new =
      map (\<lambda>j. Some (JString (serial (j + 1)))) [0..<length ?rs - 1]"
    by (simp add: renumber_record_def)
  have len: "length ?new = length ?rs - 1" by simp
  have d: "dense ?new"
    unfolding dense_def by (simp only: ser len)
  have other: "(?new ! j) f = (if j < i then ?rs ! j else ?rs ! (j + 1)) f"
    if "j < length ?rs - 1"
      and "f \<noteq> ''serialNumber'' \<and> f \<noteq> ''frontPhoto'' \<and> f \<noteq> ''backPhoto''" for j f
    using that(2) by (simp only: nth[OF that(1)]) (simp add: renumber_record_def)
  have frame: "data_files ?st' k' = data_files st k'" if "k' \<noteq> k" for k'
    using that by (simp only: run snd_conv) simp
  have res: "fst (deleteAdjust k (serial (i + 1)) st) = Deleted (length ?rs - 1)"
    by (simp only: run fst_conv)
  show ?thesis
    unfolding new using res len ser d nth other frame by blast
qed

lemma dense_store_3: "dense (loadRecords Visitor store_3)"
  by (simp add: dense_def records_store_3 serials_store_3 serial_digit digit_char_def upt_rec)

theorem delete_adjust_renumbers_witness:
  "fst (deleteAdjust Visitor ''0002'' store_3) = Deleted 2 \<and>
   map (\<lambda>r. r ''serialNumber'') (loadRecords Visitor (snd (deleteAdjust Visitor ''0002'' store_3))) =
     [Some (JString ''0001''), Some (JString ''0002'')] \<and>
   loadRecords Visitor (snd (deleteAdjust Visitor ''0002'' store_3)) ! 0 =
     renumber_record Visitor 1 (stored_record Visitor day ann 1) \<and>
   loadRecords Visitor (snd (deleteAdjust Visitor ''0002'' store_3)) ! 1 =
     renumber_record Visitor 2 (stored_record Visitor day cyd 3)"
proof -
  have i: "1 < length (loadRecords Visitor store_3)" by (simp add: records_store_3)
  have f: "\<not> io_fault store_3 (collection_file Visitor)" by (simp add: store_3_eq)
  have s: "serial (1 + 1) = ''0002''" by (simp add: serial_digit digit_char_def)
  have l: "length (loadRecords Visitor store_3) - 1 = 2" by (simp add: records_store_3)
  have u: "[0..<2] = [0, Suc 0]" by (simp add: upt_rec)
  note t = delete_adjust_renumbers[OF dense_store_3 i f, unfolded s l]
  from t have 1: "fst (deleteAdjust Visitor ''0002'' store_3) = Deleted 2" by blast
  from t have "map (\<lambda>r. r ''serialNumber'')
      (loadRecords Visitor (snd (deleteAdjust Visitor ''0002'' store_3))) =
      map (\<lambda>j. Some (JString (serial (j + 1)))) [0..<2]" by blast
  then have 2: "map (\<lambda>r. r ''serialNumber'')
      (loadRecords Visitor (snd (deleteAdjust Visitor ''0002'' store_3))) =
      [Some (JString ''0001''), Some (JString ''0002'')]"
    by (simp add: u serial_digit digit_char_def)
  from t have n: "\<forall>j < 2. loadRecords Visitor (snd (deleteAdjust Visitor ''0002'' store_3)) ! j =
      renumber_record Visitor (j + 1)
        (if j < 1 then loadRecords Visitor store_3 ! j else loadRecords Visitor store_3 ! (j + 1))"
    by blast
  from n[rule_format, of 0] have 3: "loadRecords Visitor (snd (deleteAdjust Visitor ''0002'' store_3)) ! 0 =
     renumber_record Visitor 1 (stored_record Visitor day ann 1)"
    by (simp add: records_store_3)
  from n[rule_format, of 1] have 4: "loadRecords Visitor (snd (deleteAdjust Visitor ''0002'' store_3)) ! 1 =
     renumber_record Visitor 2 (stored_record Visitor day cyd 3)"
    by (simp add: records_store_3 numeral_2_eq_2)
  from 1 2 3 4 show ?thesis by blast
qed

subsection \<open>Photo files after a delete and after a failed create\<close>

lemma delete_0002_store_3:
  "deleteAdjust Visitor ''0002'' store_3 =
     (Deleted 2,
      store_3\<lparr>data_files := (data_files store_3)(Visitor \<mapsto>
        [renumber_record Visitor 1 (stored_record Visitor day ann 1),
         renumber_record Visitor 2 (stored_record Visitor day cyd 3)])\<rparr>)"
proof -
  let ?rs = "loadRecords Visitor store_3"
  have fi: "findIndex (\<lambda>v. v ''serialNumber'' = Some (JString ''0002'')) ?rs = Some 1"
    by (simp add: records_store_3 serials_store_3)
  have io: "io_fault store_3 (collection_file Visitor) = False"
    by (simp add: store_3_eq)
  have len: "length ?rs - 1 = 2"
    by (simp add: records_store_3)
  have sp: "take 1 ?rs @ drop (Suc 1) ?rs =
      [stored_record Visitor day ann 1, stored_record Visitor day cyd 3]"
    by (simp add: records_store_3)
  have m: "map (\<lambda>j. renumber_record Visitor (j + 1)
        ([stored_record Visitor day ann 1, stored_record Visitor day cyd 3] ! j)) [0..<2] =
      [renumber_record Visitor 1 (stored_record Visitor day ann 1),
       renumber_record Visitor 2 (stored_record Visitor day cyd 3)]"
    by (simp add: upt_rec numeral_2_eq_2)
  show ?thesis
    by (simp only: deleteAdjust_found[OF fi] io if_False len sp m)
qed

text \<open>
  Claim C2. In the scenario the collection comes out as claimed: two records, serial
  numbers \<open>0001\<close> and \<open>0002\<close>, the record of Cyd (formerly \<open>0003\<close>) now \<open>0002\<close> with photo
  references \<open>/photos/0002_front.jpg\<close> and \<open>/photos/0002_back.jpg\<close>. The photo files are
  not touched: the files \<open>0003_front.jpg\<close> and \<open>0003_back.jpg\<close> still exist with the
  photos of Cyd, and \<open>0002_front.jpg\<close> and \<open>0002_back.jpg\<close> still hold the photos of the
  deleted record of Bob.
\<close>

theorem adjust_leaves_photo_files:
  "map (\<lambda>r. r ''serialNumber'') (loadRecords Visitor store_3) =
     [Some (JString ''0001''), Some (JString ''0002''), Some (JString ''0003'')] \<and>
   map (\<lambda>r. r ''name'') (loadRecords Visitor store_3) =
     [Some (JString ''Ann''), Some (JString ''Bob''), Some (JString ''Cyd'')] \<and>
   fst (deleteAdjust Visitor ''0002'' store_3) = Deleted 2 \<and>
   map (\<lambda>r. r ''serialNumber'') (loadRecords Visitor (snd (deleteAdjust Visitor ''0002'' store_3))) =
     [Some (JString ''0001''), Some (JString ''0002'')] \<and>
   map (\<lambda>r. r ''name'') (loadRecords Visitor (snd (deleteAdjust Visitor ''0002'' store_3))) =
     [Some (JString ''Ann''), Some (JString ''Cyd'')] \<and>
   map (\<lambda>r. r ''frontPhoto'') (loadRecords Visitor (snd (deleteAdjust Visitor ''0002'' store_3))) =
     [Some (JString ''/photos/0001_front.jpg''), Some (JString ''/photos/0002_front.jpg'')] \<and>
   map (\<lambda>r. r ''backPhoto'') (loadRecords Visitor (snd (deleteAdjust Visitor ''0002'' store_3))) =
     [Some (JString ''/photos/0001_back.jpg''), Some (JString ''/photos/0002_back.jpg'')] \<and>
   photos (snd (deleteAdjust Visitor ''0002'' store_3)) ''data/photos/0003_front.jpg'' =
     Some ''Q0ND'' \<and>
   photos (snd (deleteAdjust Visitor ''0002'' store_3)) ''data/photos/0003_back.jpg'' =
     Some ''Y2Nj'' \<and>
   photos (snd (deleteAdjust Visitor ''0002'' store_3)) ''data/photos/0002_front.jpg'' =
     Some ''QkJC'' \<and>
   photos (snd (deleteAdjust Visitor ''0002'' store_3)) ''data/photos/0002_back.jpg'' =
     Some ''YmJi''"
proof -
  have names: "stored_record Visitor day ann 1 ''name'' = Some (JString ''Ann'')"
    "stored_record Visitor day ann (Suc 0) ''name'' = Some (JString ''Ann'')"
    "stored_record Visitor day bob 2 ''name'' = Some (JString ''Bob'')"
    "stored_record Visitor day cyd 3 ''name'' = Some (JString ''Cyd'')"
    by (simp_all add: stored_record_def ann_def bob_def cyd_def visitor_form_def)
  have before: "map (\<lambda>r. r ''serialNumber'') (loadRecords Visitor store_3) =
      [Some (JString ''0001''), Some (JString ''0002''), Some (JString ''0003'')]"
    "map (\<lambda>r. r ''name'') (loadRecords Visitor store_3) = [Some (JString ''Ann''), Some (JString ''Bob''), Some (JString ''Cyd'')]"
    by (simp_all add: records_store_3 serials_store_3 names)
  have after: "loadRecords Visitor (snd (deleteAdjust Visitor ''0002'' store_3)) =
      [renumber_record Visitor 1 (stored_record Visitor day ann 1),
       renumber_record Visitor 2 (stored_record Visitor day cyd 3)]"
    by (simp add: delete_0002_store_3 loadRecords_def)
  have recs: "map (\<lambda>r. r ''serialNumber'')
        (loadRecords Visitor (snd (deleteAdjust Visitor ''0002'' store_3))) =
      [Some (JString ''0001''), Some (JString ''0002'')]"
    "map (\<lambda>r. r ''name'') (loadRecords Visitor (snd (deleteAdjust Visitor ''0002'' store_3))) =
      [Some (JString ''Ann''), Some (JString ''Cyd'')]"
    "map (\<lambda>r. r ''frontPhoto'') (loadRecords Visitor (snd (deleteAdjust Visitor ''0002'' store_3))) =
      [Some (JString ''/photos/0001_front.jpg''), Some (JString ''/photos/0002_front.jpg'')]"
    "map (\<lambda>r. r ''backPhoto'') (loadRecords Visitor (snd (deleteAdjust Visitor ''0002'' store_3))) =
      [Some (JString ''/photos/0001_back.jpg''), Some (JString ''/photos/0002_back.jpg'')]"
    by (simp_all add: after renumber_record_def names photo_url_def photo_name_def
        serial_digit digit_char_def)
  have files: "photos store_3 ''data/photos/0003_front.jpg'' = Some ''Q0ND''"
    "photos store_3 ''data/photos/0003_back.jpg'' = Some ''Y2Nj''"
    "photos store_3 ''data/photos/0002_front.jpg'' = Some ''QkJC''"
    "photos store_3 ''data/photos/0002_back.jpg'' = Some ''YmJi''"
    by (simp_all add: store_3_eq path_eval)
  have res: "fst (deleteAdjust Visitor ''0002'' store_3) = Deleted 2"
    by (simp add: delete_0002_store_3)
  from before recs files res show ?thesis
    by (simp only: deleteAdjust_photos)
qed

text \<open>
  Claim C8. The form of Ann is valid and the store is empty; the write of the back photo
  \<open>0001_back.jpg\<close> fails. Create answers 400 and appends no record, and the front photo
  \<open>0001_front.jpg\<close>, absent before and written before the failure, is still there.
\<close>

theorem failed_back_write_leaves_front_photo:
  "loadRecords Visitor back_fault_store = [] \<and>
   photos back_fault_store ''data/photos/0001_front.jpg'' = None \<and>
   fst (createRecord Visitor day ann back_fault_store) =
     Failure 400 ''EACCES: permission denied, open data/photos/0001_back.jpg'' \<and>
   loadRecords Visitor (snd (createRecord Visitor day ann back_fault_store)) = [] \<and>
   photos (snd (createRecord Visitor day ann back_fault_store)) ''data/photos/0001_front.jpg'' =
     Some ''QUFB''"
proof -
  have n: "1 = length (loadRecords Visitor back_fault_store) + 1"
    by (simp add: loadRecords_def back_fault_store_def empty_store_def)
  have paths: "photo_path Visitor (serial (Suc 0)) ''front'' = ''data/photos/0001_front.jpg''"
    "photo_path Visitor (serial (Suc 0)) ''back'' = ''data/photos/0001_back.jpg''"
    by (simp_all add: path_eval)
  have f: "io_fault back_fault_store = (\<lambda>p. p = ''data/photos/0001_back.jpg'')"
    by (simp add: back_fault_store_def)
  have run: "createRecord Visitor day ann back_fault_store =
      (Failure 400 ''EACCES: permission denied, open data/photos/0001_back.jpg'',
       back_fault_store\<lparr>photos := (photos back_fault_store)
         (''data/photos/0001_front.jpg'' \<mapsto> ''QUFB'')\<rparr>)"
    by (simp add: createRecord_valid[OF valid_ann photos_ann n] paths f create_error_def
        strip_data_uri_def match_literal_def is_word_char_def)
  have e: "loadRecords Visitor back_fault_store = []"
    "photos back_fault_store ''data/photos/0001_front.jpg'' = None"
    by (simp_all add: loadRecords_def back_fault_store_def empty_store_def)
  from run e show ?thesis
    by (simp add: loadRecords_def)
qed

subsection \<open>Create: required fields that are overwritten\<close>

lemma acceptable_valid:
  assumes "acceptable k body"
  shows "validateData k body = Inr True"
    and "\<exists>fp. body ''frontPhoto'' = Some (JString fp)"
    and "\<exists>bp. body ''backPhoto'' = Some (JString bp)"
proof -
  from assms have f: "\<forall>f \<in> set (requiredFields k). field_filled (body f)"
    by (simp add: acceptable_def list_all_iff)
  from assms obtain s where s: "body ''idNumber'' = Some (JString s)" "idPattern_test s"
    by (auto simp: acceptable_def split: option.splits jsval.splits)
  from assms obtain fp where fp: "body ''frontPhoto'' = Some (JString fp)" "fp \<noteq> []"
    by (auto simp: acceptable_def split: option.splits jsval.splits)
  from assms obtain bp where bp: "body ''backPhoto'' = Some (JString bp)" "bp \<noteq> []"
    by (auto simp: acceptable_def split: option.splits jsval.splits)
  show "validateData k body = Inr True"
    using s fp bp by (simp add: validateData_filled[OF f s(1)] truthy_def)
  show "\<exists>fp. body ''frontPhoto'' = Some (JString fp)" using fp by blast
  show "\<exists>bp. body ''backPhoto'' = Some (JString bp)" using bp by blast
qed

lemma createRecord_succeeds:
  assumes "acceptable k body" and "writable k st"
  shows "createRecord k today body st =
     (Created (stored_record k today body (length (loadRecords k st) + 1)),
      st\<lparr>photos := (photos st)
            (photo_path k (serial (length (loadRecords k st) + 1)) ''front'' \<mapsto>
               payload (body ''frontPhoto''),
             photo_path k (serial (length (loadRecords k st) + 1)) ''back'' \<mapsto>
               payload (body ''backPhoto'')),
         data_files := (data_files st)(k := Some (loadRecords k st @
            [stored_record k today body (length (loadRecords k st) + 1)]))\<rparr>)"
proof -
  from acceptable_valid[OF assms(1)] obtain fp bp
    where v: "validateData k body = Inr True"
      and p: "body ''frontPhoto'' = Some (JString fp)" "body ''backPhoto'' = Some (JString bp)"
    by blast
  from assms(2) show ?thesis
    by (simp add: createRecord_valid[OF v p refl] writable_def p payload_def)
qed

lemma stored_record_fields:
  "stored_record k today body n ''serialNumber'' = Some (JString (serial n))"
  "stored_record Visitor today body n ''date'' = Some (JString today)"
  "stored_record Key today body n ''date'' = body ''date''"
  by (cases k) (simp_all add: stored_record_def)

text \<open>
  Claim C10. A request body whose \<open>serialNumber\<close> or \<open>date\<close> is absent, falsy or empty
  after trimming is rejected in either flow: validation throws, create answers 400 with
  the thrown message and the store is as before; when no required field makes the
  presence check itself throw, the message is the list of the missing fields, that field
  among them. Yet for a body that create accepts, in a store it can write, create
  succeeds and does not keep the supplied serial number in either flow; in the visitor
  flow it stores the current date whatever date was supplied, in the key flow it stores
  the supplied date.
\<close>

theorem create_requires_serial_and_date:
  "((field = ''serialNumber'' \<or> field = ''date'') \<and>
      (\<not> truthy (body field) \<or> (\<exists>s. body field = Some (JString s) \<and> trim s = [])) \<longrightarrow>
        (\<exists>e. validateData k body = Inl e \<and>
             createRecord k today body st = (Failure 400 (message e), st)) \<and>
        ((\<forall>f \<in> set (requiredFields k). \<not> field_throws (body f)) \<longrightarrow>
           createRecord k today body st =
             (Failure 400 (''Missing required fields: '' @ join '', '' (missingFields k body)), st) \<and>
           field \<in> set (missingFields k body))) \<and>
   (acceptable Visitor body \<and> writable Visitor st \<longrightarrow>
      (\<exists>r st'. createRecord Visitor today body st = (Created r, st') \<and>
         r ''serialNumber'' = Some (JString (serial (length (loadRecords Visitor st) + 1))) \<and>
         r ''date'' = Some (JString today) \<and>
         loadRecords Visitor st' = loadRecords Visitor st @ [r])) \<and>
   (acceptable Key body \<and> writable Key st \<longrightarrow>
      (\<exists>r st'. createRecord Key today body st = (Created r, st') \<and>
         r ''serialNumber'' = Some (JString (serial (length (loadRecords Key st) + 1))) \<and>
         r ''date'' = body ''date'' \<and>
         loadRecords Key st' = loadRecords Key st @ [r]))"
proof -
  have a: "(\<exists>e. validateData k body = Inl e \<and>
             createRecord k today body st = (Failure 400 (message e), st)) \<and>
        ((\<forall>f \<in> set (requiredFields k). \<not> field_throws (body f)) \<longrightarrow>
           createRecord k today body st =
             (Failure 400 (''Missing required fields: '' @ join '', '' (missingFields k body)), st) \<and>
           field \<in> set (missingFields k body))"
    if f: "field = ''serialNumber'' \<or> field = ''date''"
      and m: "\<not> truthy (body field) \<or> (\<exists>s. body field = Some (JString s) \<and> trim s = [])"
  proof -
    from f have r: "field \<in> set (requiredFields k)"
      using required_date[of k] required_serialNumber[of k] by blast
    from m have fm: "field_missing (body field)" by (simp only: field_missing_iff)
    with r have i: "field \<in> set (missingFields k body)" by (simp add: missingFields_set)
    then have ne: "missingFields k body \<noteq> []" by auto
    have "\<not> field_filled (body field)" using fm field_filled_not_missing by blast
    with r have "\<not> (\<forall>f \<in> set (requiredFields k). field_filled (body f))" by blast
    then have "validateData k body \<noteq> Inr True" by (simp add: validateData_Inr)
    then obtain e where e: "validateData k body = Inl e"
      by (cases "validateData k body") (auto simp: validateData_Inr)
    from createRecord_invalid[OF e] e
    have 1: "\<exists>e. validateData k body = Inl e \<and>
        createRecord k today body st = (Failure 400 (message e), st)" by blast
    have 2: "createRecord k today body st =
        (Failure 400 (''Missing required fields: '' @ join '', '' (missingFields k body)), st)"
      if "\<forall>f \<in> set (requiredFields k). \<not> field_throws (body f)"
      using createRecord_invalid[OF validateData_missing[OF that ne]] by simp
    from 1 2 i show ?thesis by blast
  qed
  have b: "\<exists>r st'. createRecord k' today body st = (Created r, st') \<and>
         r ''serialNumber'' = Some (JString (serial (length (loadRecords k' st) + 1))) \<and>
         r ''date'' = (case k' of Visitor \<Rightarrow> Some (JString today) | Key \<Rightarrow> body ''date'') \<and>
         loadRecords k' st' = loadRecords k' st @ [r]"
    if "acceptable k' body" "writable k' st" for k'
    by (cases k') (use that in \<open>simp_all add: createRecord_succeeds stored_record_fields loadRecords_def\<close>)
  from a b[of Visitor] b[of Key] show ?thesis by simp
qed

lemma acceptable_ann: "acceptable Visitor ann"
  by (simp add: acceptable_def requiredFields_def ann_def visitor_form_def string_eval
      pattern_eval)

lemma acceptable_key_form: "acceptable Key key_form"
  by (simp add: acceptable_def requiredFields_def key_form_def string_eval pattern_eval)

lemma writable_empty_store: "writable k empty_store"
  by (simp add: writable_def empty_store_def)

lemma writable_store_3: "writable k store_3"
  by (simp add: writable_def store_3_eq)

lemma desk_1_eq:
  "desk_1 = store_3\<lparr>photos := (photos store_3)
        (photo_path Key (serial 1) ''front'' \<mapsto> ''RlJPTlQ='',
         photo_path Key (serial 1) ''back'' \<mapsto> ''QkFDSw==''),
      data_files := (data_files store_3)(Key \<mapsto> [stored_record Key day key_form 1])\<rparr>"
proof -
  have l: "loadRecords Key store_3 = []" by (simp add: loadRecords_def store_3_eq)
  show ?thesis
    unfolding desk_1_def
    by (simp add: createRecord_succeeds[OF acceptable_key_form writable_store_3] l payload_def
        photos_key_form strip_data_uri_def match_literal_def is_word_char_def)
qed

lemma create_key_desk_1:
  "createRecord Key day key_form store_3 = (Created (stored_record Key day key_form 1), desk_1)"
proof -
  have l: "loadRecords Key store_3 = []" by (simp add: loadRecords_def store_3_eq)
  show ?thesis
    unfolding desk_1_def
    by (simp add: createRecord_succeeds[OF acceptable_key_form writable_store_3] l)
qed

theorem create_requires_serial_and_date_witness:
  "undated_form ''date'' = None \<and>
   createRecord Key day undated_form empty_store =
     (Failure 400 ''Missing required fields: date'', empty_store) \<and>
   ann ''serialNumber'' = Some (JString ''0000'') \<and>
   ann ''date'' = Some (JString ''2020-01-01'') \<and>
   createRecord Visitor day ann empty_store =
     (Created (stored_record Visitor day ann 1), store_1) \<and>
   stored_record Visitor day ann 1 ''serialNumber'' = Some (JString ''0001'') \<and>
   stored_record Visitor day ann 1 ''date'' = Some (JString ''2024-05-05'') \<and>
   loadRecords Visitor store_1 = [stored_record Visitor day ann 1] \<and>
   key_form ''serialNumber'' = Some (JString ''0000'') \<and>
   key_form ''date'' = Some (JString ''2020-01-01'') \<and>
   createRecord Key day key_form store_3 =
     (Created (stored_record Key day key_form 1), desk_1) \<and>
   stored_record Key day key_form 1 ''serialNumber'' = Some (JString ''0001'') \<and>
   stored_record Key day key_form 1 ''date'' = Some (JString ''2020-01-01'') \<and>
   loadRecords Key desk_1 = [stored_record Key day key_form 1]"
proof -
  have u: "undated_form ''date'' = None" by (simp add: undated_form_def)
  have m: "missingFields Key undated_form = [''date'']"
    by (simp add: missingFields_def requiredFields_def undated_form_def key_form_def string_eval)
  have nt: "\<forall>f \<in> set (requiredFields Key). \<not> field_throws (undated_form f)"
    by (simp add: requiredFields_def undated_form_def key_form_def string_eval)
  have h: "(''date'' = ''serialNumber'' \<or> ''date'' = ''date'') \<and>
      (\<not> truthy (undated_form ''date'') \<or>
       (\<exists>s. undated_form ''date'' = Some (JString s) \<and> trim s = []))"
    using u by (simp add: truthy_def)
  note t1 = create_requires_serial_and_date[where field = "''date''" and body = undated_form
      and k = Key and today = day and st = empty_store, THEN conjunct1, THEN mp, OF h,
      THEN conjunct2, THEN mp, OF nt]
  from t1 have 1: "createRecord Key day undated_form empty_store =
     (Failure 400 ''Missing required fields: date'', empty_store)"
    by (simp add: m)
  have av: "acceptable Visitor ann \<and> writable Visitor empty_store"
    by (simp add: acceptable_ann writable_empty_store)
  have e: "loadRecords Visitor empty_store = []"
    by (simp add: loadRecords_def empty_store_def)
  from create_requires_serial_and_date[where body = ann and today = day
      and st = empty_store, THEN conjunct2, THEN conjunct1, THEN mp, OF av]
  obtain r st' where r: "createRecord Visitor day ann empty_store = (Created r, st')"
    "r ''serialNumber'' = Some (JString (serial (length (loadRecords Visitor empty_store) + 1)))"
    "r ''date'' = Some (JString day)"
    "loadRecords Visitor st' = loadRecords Visitor empty_store @ [r]" by blast
  from r(1) create_ann have eq: "r = stored_record Visitor day ann 1" "st' = store_1" by simp_all
  from r eq e have 2: "createRecord Visitor day ann empty_store =
     (Created (stored_record Visitor day ann 1), store_1) \<and>
   stored_record Visitor day ann 1 ''serialNumber'' = Some (JString ''0001'') \<and>
   stored_record Visitor day ann 1 ''date'' = Some (JString ''2024-05-05'') \<and>
   loadRecords Visitor store_1 = [stored_record Visitor day ann 1]"
    by (simp add: day_def serial_digit digit_char_def)
  have ak: "acceptable Key key_form \<and> writable Key store_3"
    by (simp add: acceptable_key_form writable_store_3)
  have e3: "loadRecords Key store_3 = []" by (simp add: loadRecords_def store_3_eq)
  have kd: "key_form ''date'' = Some (JString ''2020-01-01'')"
    "key_form ''serialNumber'' = Some (JString ''0000'')" by (simp_all add: key_form_def)
  from create_requires_serial_and_date[where body = key_form and today = day
      and st = store_3, THEN conjunct2, THEN conjunct2, THEN mp, OF ak]
  obtain q st'' where q: "createRecord Key day key_form store_3 = (Created q, st'')"
    "q ''serialNumber'' = Some (JString (serial (length (loadRecords Key store_3) + 1)))"
    "q ''date'' = key_form ''date''"
    "loadRecords Key st'' = loadRecords Key store_3 @ [q]" by blast
  from q(1) create_key_desk_1 have eq': "q = stored_record Key day key_form 1" "st'' = desk_1"
    by simp_all
  from q eq' e3 kd have 3: "createRecord Key day key_form store_3 =
     (Created (stored_record Key day key_form 1), desk_1) \<and>
   stored_record Key day key_form 1 ''serialNumber'' = Some (JString ''0001'') \<and>
   stored_record Key day key_form 1 ''date'' = Some (JString ''2020-01-01'') \<and>
   loadRecords Key desk_1 = [stored_record Key day key_form 1]"
    by (simp add: serial_digit digit_char_def)
  have 4: "ann ''serialNumber'' = Some (JString ''0000'')"
    "ann ''date'' = Some (JString ''2020-01-01'')"
    by (simp_all add: ann_def visitor_form_def)
  from u 1 2 3 4 kd show ?thesis by blast
qed

lemma string_method_throws:
  "field_throws v \<Longrightarrow>
   string_method name method v = Inl (TypeError (name @ ''.'' @ method @ '' is not a function''))"
  by (simp add: field_throws_def string_method_def truthy_def split: option.splits jsval.splits)

lemma createRecord_front_throws:
  assumes v: "validateData k body = Inr True"
    and p: "field_throws (body ''frontPhoto'')"
  shows "createRecord k today body st =
     (Failure 400 (object_name k @ ''.frontPhoto.replace is not a function''), st)"
proof -
  have "string_method (object_name k @ ''.frontPhoto'') ''replace'' (body ''frontPhoto'') =
      Inl (TypeError (object_name k @ ''.frontPhoto.replace is not a function''))"
    using string_method_throws[OF p, of "object_name k @ ''.frontPhoto''" "''replace''"] by simp
  then show ?thesis
    using v valid_date[OF v]
    by (cases k) (simp_all add: createRecord_def Let_def create_error_def)
qed

lemma createRecord_back_throws:
  assumes v: "validateData k body = Inr True"
    and f: "body ''frontPhoto'' = Some (JString fp)"
    and p: "field_throws (body ''backPhoto'')"
  shows "createRecord k today body st =
     (Failure 400 (object_name k @ ''.backPhoto.replace is not a function''), st)"
proof -
  have "string_method (object_name k @ ''.backPhoto'') ''replace'' (body ''backPhoto'') =
      Inl (TypeError (object_name k @ ''.backPhoto.replace is not a function''))"
    using string_method_throws[OF p, of "object_name k @ ''.backPhoto''" "''replace''"] by simp
  then show ?thesis
    using v f valid_date[OF v]
    by (cases k) (simp_all add: createRecord_def Let_def create_error_def string_method_def)
qed

subsection \<open>Create: the identity number pattern\<close>

text \<open>
  Claim C6, as amended. For a request body whose required fields are all filled, that
  is, strings that are not empty after trimming: when \<open>idNumber\<close> does not match
  \<open>^784-\d{4}-\d{7}-\d$\<close>, validation throws the format error and create answers 400
  with it, the store unchanged; when it matches, both photo payloads are non-empty
  strings and none of the three writes fails, create succeeds and appends the stored
  record; when it matches and both photo payloads are truthy but one of them is no
  string, create answers 400 and the store is unchanged. The test accepts exactly
  \<open>784-\<close>, four digits, \<open>-\<close>, seven digits, \<open>-\<close> and one digit; it rejects
  \<open>123-4567-8901234-5\<close> and accepts \<open>784-1234-1234567-1\<close>.
\<close>

theorem create_checks_id_pattern:
  assumes "\<forall>f \<in> set (requiredFields k). field_filled (body f)"
    and "body ''idNumber'' = Some (JString idNumber)"
  shows "(\<not> idPattern_test idNumber \<longrightarrow>
        validateData k body = Inl (Error (invalid_id_message k)) \<and>
        createRecord k today body st = (Failure 400 (invalid_id_message k), st)) \<and>
     (idPattern_test idNumber \<and>
      body ''frontPhoto'' = Some (JString fp) \<and> fp \<noteq> [] \<and>
      body ''backPhoto'' = Some (JString bp) \<and> bp \<noteq> [] \<and> writable k st \<longrightarrow>
        createRecord k today body st =
          (Created (stored_record k today body (length (loadRecords k st) + 1)),
           snd (createRecord k today body st)) \<and>
        loadRecords k (snd (createRecord k today body st)) =
          loadRecords k st @ [stored_record k today body (length (loadRecords k st) + 1)]) \<and>
     (idPattern_test idNumber \<and>
      truthy (body ''frontPhoto'') \<and> truthy (body ''backPhoto'') \<and>
      (field_throws (body ''frontPhoto'') \<or> field_throws (body ''backPhoto'')) \<longrightarrow>
        (\<exists>m. createRecord k today body st = (Failure 400 m, st))) \<and>
     (idPattern_test idNumber \<longleftrightarrow>
        (\<exists>a b c. idNumber = ''784-'' @ a @ ''-'' @ b @ ''-'' @ [c] \<and> length a = 4 \<and>
           length b = 7 \<and> list_all is_digit a \<and> list_all is_digit b \<and> is_digit c)) \<and>
     \<not> idPattern_test ''123-4567-8901234-5'' \<and> idPattern_test ''784-1234-1234567-1''"
proof -
  have bad: "validateData k body = Inl (Error (invalid_id_message k)) \<and>
      createRecord k today body st = (Failure 400 (invalid_id_message k), st)"
    if "\<not> idPattern_test idNumber"
  proof -
    have v: "validateData k body = Inl (Error (invalid_id_message k))"
      using that by (simp add: validateData_filled[OF assms])
    from createRecord_invalid[OF v] v show ?thesis by simp
  qed
  have good: "createRecord k today body st =
        (Created (stored_record k today body (length (loadRecords k st) + 1)),
         snd (createRecord k today body st)) \<and>
      loadRecords k (snd (createRecord k today body st)) =
        loadRecords k st @ [stored_record k today body (length (loadRecords k st) + 1)]"
    if t: "idPattern_test idNumber"
      and p: "body ''frontPhoto'' = Some (JString fp)" "fp \<noteq> []"
        "body ''backPhoto'' = Some (JString bp)" "bp \<noteq> []"
      and w: "writable k st"
  proof -
    have a: "acceptable k body"
      using assms t p by (simp add: acceptable_def list_all_iff)
    show ?thesis
      by (simp add: createRecord_succeeds[OF a w] loadRecords_def)
  qed
  have typed: "\<exists>m. createRecord k today body st = (Failure 400 m, st)"
    if t: "idPattern_test idNumber"
      and p: "truthy (body ''frontPhoto'')" "truthy (body ''backPhoto'')"
      and n: "field_throws (body ''frontPhoto'') \<or> field_throws (body ''backPhoto'')"
  proof -
    have v: "validateData k body = Inr True"
      using t p by (simp add: validateData_filled[OF assms])
    from p(1) n have "field_throws (body ''frontPhoto'') \<or>
       (\<exists>fp. body ''frontPhoto'' = Some (JString fp)) \<and> field_throws (body ''backPhoto'')"
      by (auto elim: photo_cases)
    from createRecord_photo_throws[OF v this] show ?thesis .
  qed
  have ex: "\<not> idPattern_test ''123-4567-8901234-5''" "idPattern_test ''784-1234-1234567-1''"
    by (simp_all add: pattern_eval)
  from bad good typed ex idPattern_test_iff[of idNumber] show ?thesis by blast
qed

lemma filled_ann: "\<forall>f \<in> set (requiredFields Visitor). field_filled (ann f)"
  unfolding ann_def by (rule filled_visitor_form) (simp add: string_eval)

lemma filled_malformed_form: "\<forall>f \<in> set (requiredFields Visitor). field_filled (malformed_form f)"
  by (simp add: requiredFields_def malformed_form_def ann_def visitor_form_def string_eval)

lemma filled_number_photo_form:
  "\<forall>f \<in> set (requiredFields Visitor). field_filled (number_photo_form f)"
  by (simp add: requiredFields_def number_photo_form_def ann_def visitor_form_def string_eval)

theorem create_checks_id_pattern_witness:
  "createRecord Visitor day malformed_form empty_store =
     (Failure 400 ''Invalid ID Number format'', empty_store) \<and>
   createRecord Visitor day ann empty_store =
     (Created (stored_record Visitor day ann 1), store_1) \<and>
   loadRecords Visitor store_1 = [stored_record Visitor day ann 1] \<and>
   fst (createRecord Visitor day number_photo_form empty_store) =
     Failure 400 ''visitor.frontPhoto.replace is not a function''"
proof -
  have i: "malformed_form ''idNumber'' = Some (JString ''123-4567-8901234-5'')"
    by (simp add: malformed_form_def)
  have n: "\<not> idPattern_test ''123-4567-8901234-5''" by (simp add: pattern_eval)
  note t1 = create_checks_id_pattern[OF filled_malformed_form i, where today = day
      and st = empty_store, THEN conjunct1, THEN mp, OF n, THEN conjunct2]
  from t1 have 1: "createRecord Visitor day malformed_form empty_store =
     (Failure 400 ''Invalid ID Number format'', empty_store)"
    by (simp add: invalid_id_message_def)
  have j: "ann ''idNumber'' = Some (JString ''784-1234-1234567-1'')"
    by (simp add: ann_def visitor_form_def)
  have g: "idPattern_test ''784-1234-1234567-1'' \<and>
      ann ''frontPhoto'' = Some (JString ''data:image/jpeg;base64,QUFB'') \<and>
      ''data:image/jpeg;base64,QUFB'' \<noteq> [] \<and>
      ann ''backPhoto'' = Some (JString ''data:image/jpeg;base64,YWFh'') \<and>
      ''data:image/jpeg;base64,YWFh'' \<noteq> [] \<and> writable Visitor empty_store"
    by (simp add: pattern_eval photos_ann writable_empty_store)
  note t2 = create_checks_id_pattern[OF filled_ann j, where today = day and st = empty_store,
      THEN conjunct2, THEN conjunct1, THEN mp, OF g]
  have e: "loadRecords Visitor empty_store = []"
    by (simp add: loadRecords_def empty_store_def)
  from t2 have 2: "createRecord Visitor day ann empty_store =
     (Created (stored_record Visitor day ann 1), store_1) \<and>
   loadRecords Visitor store_1 = [stored_record Visitor day ann 1]"
    by (simp add: e store_1_def)
  have q: "number_photo_form ''idNumber'' = Some (JString ''784-1234-1234567-1'')"
    by (simp add: number_photo_form_def ann_def visitor_form_def)
  have h: "idPattern_test ''784-1234-1234567-1'' \<and>
      truthy (number_photo_form ''frontPhoto'') \<and> truthy (number_photo_form ''backPhoto'') \<and>
      (field_throws (number_photo_form ''frontPhoto'') \<or>
       field_throws (number_photo_form ''backPhoto''))"
    by (simp add: pattern_eval number_photo_form_def ann_def visitor_form_def string_eval)
  note t3 = create_checks_id_pattern[OF filled_number_photo_form q, where today = day
      and st = empty_store, THEN conjunct2, THEN conjunct2, THEN conjunct1, THEN mp, OF h]
  have v: "validateData Visitor number_photo_form = Inr True"
    using h by (simp add: validateData_filled[OF filled_number_photo_form q])
  have ft: "field_throws (number_photo_form ''frontPhoto'')"
    by (simp add: number_photo_form_def string_eval)
  from t3 have 3: "fst (createRecord Visitor day number_photo_form empty_store) =
     Failure 400 ''visitor.frontPhoto.replace is not a function''"
    by (simp add: createRecord_front_throws[OF v ft] object_name_def)
  from 1 2 3 show ?thesis by blast
qed

text \<open>
  The counterexample to claim C6 as stated: the form of Ann with the number 1 as front
  photo has every required field present, a conforming identity number and both photo
  payloads present, and create answers 400.
\<close>

theorem create_rejects_number_photo:
  "checkRequired Visitor number_photo_form (requiredFields Visitor) [] = Inr [] \<and>
   number_photo_form ''idNumber'' = Some (JString ''784-1234-1234567-1'') \<and>
   idPattern_test ''784-1234-1234567-1'' \<and>
   number_photo_form ''frontPhoto'' = Some (JNumber ''1'') \<and>
   truthy (number_photo_form ''frontPhoto'') \<and>
   truthy (number_photo_form ''backPhoto'') \<and>
   createRecord Visitor day number_photo_form empty_store =
     (Failure 400 ''visitor.frontPhoto.replace is not a function'', empty_store)"
proof -
  have q: "number_photo_form ''idNumber'' = Some (JString ''784-1234-1234567-1'')"
    by (simp add: number_photo_form_def ann_def visitor_form_def)
  have c: "checkRequired Visitor number_photo_form (requiredFields Visitor) [] = Inr []"
    using filled_number_photo_form
    by (simp add: checkRequired_fields all_filled_iff)
  have t: "idPattern_test ''784-1234-1234567-1''" by (simp add: pattern_eval)
  have p: "number_photo_form ''frontPhoto'' = Some (JNumber ''1'')"
    "truthy (number_photo_form ''frontPhoto'')" "truthy (number_photo_form ''backPhoto'')"
    by (simp_all add: number_photo_form_def ann_def visitor_form_def truthy_def)
  have v: "validateData Visitor number_photo_form = Inr True"
    using t p by (simp add: validateData_filled[OF filled_number_photo_form q])
  have ft: "field_throws (number_photo_form ''frontPhoto'')"
    by (simp add: number_photo_form_def string_eval)
  have r: "createRecord Visitor day number_photo_form empty_store =
     (Failure 400 ''visitor.frontPhoto.replace is not a function'', empty_store)"
    by (simp add: createRecord_front_throws[OF v ft] object_name_def)
  from c q t p r show ?thesis by blast
qed

subsection \<open>Create: the list of missing fields\<close>

text \<open>
  Where the claim holds in server.js: when no required field makes the presence check
  throw, the message lists exactly the required fields that are falsy or empty after
  trimming, each by name, and nothing is stored.
\<close>

lemma missing_fields_all_named:
  assumes "\<forall>f \<in> set (requiredFields k). \<not> field_throws (body f)"
    and "field \<in> set (requiredFields k)"
    and "\<not> truthy (body field) \<or> (\<exists>s. body field = Some (JString s) \<and> trim s = [])"
  shows "validateData k body =
       Inl (Error (''Missing required fields: '' @ join '', '' (missingFields k body))) \<and>
     createRecord k today body st =
       (Failure 400 (''Missing required fields: '' @ join '', '' (missingFields k body)), st) \<and>
     set (missingFields k body) =
       {f \<in> set (requiredFields k).
          \<not> truthy (body f) \<or> (\<exists>s. body f = Some (JString s) \<and> trim s = [])} \<and>
     (\<forall>f \<in> set (requiredFields k).
        \<not> truthy (body f) \<or> (\<exists>s. body f = Some (JString s) \<and> trim s = []) \<longrightarrow>
        sublist f (''Missing required fields: '' @ join '', '' (missingFields k body)))"
proof -
  have set_eq: "set (missingFields k body) =
      {f \<in> set (requiredFields k).
         \<not> truthy (body f) \<or> (\<exists>s. body f = Some (JString s) \<and> trim s = [])}"
    by (simp only: missingFields_set field_missing_iff)
  with assms(2,3) have ne: "missingFields k body \<noteq> []" by auto
  have v: "validateData k body =
      Inl (Error (''Missing required fields: '' @ join '', '' (missingFields k body)))"
    using assms(1) ne by (rule validateData_missing)
  have c: "createRecord k today body st =
      (Failure 400 (''Missing required fields: '' @ join '', '' (missingFields k body)), st)"
    using createRecord_invalid[OF v] by simp
  have "sublist f (''Missing required fields: '' @ join '', '' (missingFields k body))"
    if "f \<in> set (missingFields k body)" for f
  proof -
    from that have "sublist f (join '', '' (missingFields k body))" by (rule sublist_join)
    moreover have "sublist (join '', '' (missingFields k body))
        (''Missing required fields: '' @ join '', '' (missingFields k body))"
      by (rule sublist_append_leftI)
    ultimately show ?thesis by (rule sublist_order.order.trans)
  qed
  with set_eq v c show ?thesis by blast
qed

lemma incomplete_form_names_both:
  "createRecord Visitor day incomplete_form empty_store =
     (Failure 400 ''Missing required fields: name, company'', empty_store)"
proof -
  have nt: "\<forall>f \<in> set (requiredFields Visitor). \<not> field_throws (incomplete_form f)"
    by (simp add: requiredFields_def incomplete_form_def visitor_form_def string_eval)
  have r: "''company'' \<in> set (requiredFields Visitor)" by (simp add: requiredFields_def)
  have m: "\<not> truthy (incomplete_form ''company'') \<or>
      (\<exists>s. incomplete_form ''company'' = Some (JString s) \<and> trim s = [])"
    by (simp add: incomplete_form_def truthy_def)
  have l: "missingFields Visitor incomplete_form = [''name'', ''company'']"
    by (simp add: missingFields_def requiredFields_def incomplete_form_def visitor_form_def
        string_eval)
  from missing_fields_all_named[OF nt r m, of day empty_store] show ?thesis
    by (simp add: l)
qed

text \<open>
  Claim C5. Two inputs on which the missing fields are not all named. In server.js the
  form with the company absent and the number 123 as name is rejected with the text of
  the \<open>TypeError\<close> that \<open>trim\<close> raises on the name, which names no field. In the older
  server variant the form with a name only, where three required fields are absent, is
  rejected with a message that names the first of them only.
\<close>

theorem missing_field_not_named:
  "typed_form ''company'' = None \<and>
   typed_form ''name'' = Some (JNumber ''123'') \<and>
   createRecord Visitor day typed_form empty_store =
     (Failure 400 ''visitor[field].trim is not a function'', empty_store) \<and>
   variant_form ''purpose'' = None \<and>
   variant_form ''personToMeet'' = None \<and>
   variant_form ''idType'' = None \<and>
   validateVisitorData_variant variant_form = Inl (Error ''Missing required field: purpose'')"
proof -
  have t: "\<exists>f \<in> set (requiredFields Visitor). field_throws (typed_form f)"
    by (simp add: requiredFields_def typed_form_def string_eval)
  have c: "createRecord Visitor day typed_form empty_store =
     (Failure 400 ''visitor[field].trim is not a function'', empty_store)"
    using createRecord_invalid[OF validateData_throws[OF t]] by (simp add: object_name_def)
  have f: "typed_form ''company'' = None" "typed_form ''name'' = Some (JNumber ''123'')"
    by (simp_all add: typed_form_def)
  have w: "variant_form ''purpose'' = None" "variant_form ''personToMeet'' = None"
    "variant_form ''idType'' = None"
    by (simp_all add: variant_form_def)
  have v: "validateVisitorData_variant variant_form =
      Inl (Error ''Missing required field: purpose'')"
    by (simp add: validateVisitorData_variant_def variant_form_def truthy_def)
  from c f w v show ?thesis by blast
qed

subsection \<open>Stats\<close>

lemma recordTime_found:
  assumes "findIndex (\<lambda>v. v ''serialNumber'' = Some (JString sn)) (loadRecords k st) = Some i"
    and "\<not> io_fault st (collection_file k)"
  shows "recordTime k sn t st =
     (Json ((loadRecords k st ! i)(time_field k := t)),
      st\<lparr>data_files := (data_files st)(k := Some
        ((loadRecords k st)[i := (loadRecords k st ! i)(time_field k := t)]))\<rparr>)"
  using assms by (simp add: recordTime_def Let_def saveRecords_def)

lemma desk_2_eq:
  "desk_2 = desk_1\<lparr>photos := (photos desk_1)
        (photo_path Key (serial 2) ''front'' \<mapsto> ''RlJPTlQ='',
         photo_path Key (serial 2) ''back'' \<mapsto> ''QkFDSw==''),
      data_files := (data_files desk_1)(Key \<mapsto>
        [stored_record Key day key_form 1, stored_record Key day key_form 2])\<rparr>"
proof -
  have l: "loadRecords Key desk_1 = [stored_record Key day key_form 1]"
    by (simp add: loadRecords_def desk_1_eq)
  have w: "writable Key desk_1"
    by (simp add: writable_def desk_1_eq store_3_eq)
  have n: "length [stored_record Key day key_form 1] + 1 = 2" by simp
  show ?thesis
    unfolding desk_2_def createRecord_succeeds[OF acceptable_key_form w] l n snd_conv
    by (simp add: payload_def photos_key_form strip_data_uri_def match_literal_def
        is_word_char_def)
qed

lemma key_serials:
  "stored_record Key day key_form 1 ''serialNumber'' = Some (JString ''0001'')"
  "stored_record Key day key_form (Suc 0) ''serialNumber'' = Some (JString ''0001'')"
  "stored_record Key day key_form 2 ''serialNumber'' = Some (JString ''0002'')"
  by (simp_all add: stored_record_def serial_digit digit_char_def)

lemma key_not_returned:
  "stored_record Key day key_form n ''timeReturned'' = None"
  by (simp add: stored_record_def key_form_def)

lemma desk_3_eq:
  "desk_3 = desk_2\<lparr>data_files := (data_files desk_2)(Key \<mapsto>
        [(stored_record Key day key_form 1)(''timeReturned'' \<mapsto> JString ''17:45''),
         stored_record Key day key_form 2])\<rparr>"
proof -
  have l: "loadRecords Key desk_2 =
      [stored_record Key day key_form 1, stored_record Key day key_form 2]"
    by (simp add: loadRecords_def desk_2_eq)
  have f: "findIndex (\<lambda>v. v ''serialNumber'' = Some (JString ''0001'')) (loadRecords Key desk_2) =
      Some 0"
    by (simp add: l key_serials)
  have w: "\<not> io_fault desk_2 (collection_file Key)"
    by (simp add: desk_2_eq desk_1_eq store_3_eq)
  show ?thesis
    unfolding desk_3_def
    by (simp add: recordTime_found[OF f w] l time_field_def)
qed

lemma desk_4_eq:
  "desk_4 = desk_3\<lparr>data_files := (data_files desk_3)(Key \<mapsto>
        [(stored_record Key day key_form 1)(''timeReturned'' \<mapsto> JString ''17:45''),
         (stored_record Key day key_form 2)(''timeReturned'' \<mapsto> JBool False)])\<rparr>"
proof -
  have l: "loadRecords Key desk_3 =
      [(stored_record Key day key_form 1)(''timeReturned'' \<mapsto> JString ''17:45''),
       stored_record Key day key_form 2]"
    by (simp add: loadRecords_def desk_3_eq)
  have f: "findIndex (\<lambda>v. v ''serialNumber'' = Some (JString ''0002'')) (loadRecords Key desk_3) =
      Some 1"
    by (simp add: l key_serials)
  have w: "\<not> io_fault desk_3 (collection_file Key)"
    by (simp add: desk_3_eq desk_2_eq desk_1_eq store_3_eq)
  show ?thesis
    unfolding desk_4_def
    by (simp add: recordTime_found[OF f w] l time_field_def)
qed

lemma falsy_values:
  "\<not> truthy v \<longleftrightarrow>
     v \<in> {None, Some JNull, Some (JBool False), Some (JNumber ''0''), Some (JString [])}"
  by (simp add: truthy_def split: option.splits jsval.splits)

text \<open>
  Claim C9, as amended. The stats handler reports as \<open>totalVisitors\<close> the length of the
  list that the visitor file holds and as \<open>activeKeys\<close> the number of records of the key
  file whose \<open>timeReturned\<close> is falsy: absent, \<open>null\<close>, \<open>false\<close>, zero or the empty
  string. A file that cannot be read counts as the empty list.
\<close>

theorem stats_counts:
  "(data_files st Visitor = Some visitors \<longrightarrow> totalVisitors (stats st) = length visitors) \<and>
   (data_files st Visitor = None \<longrightarrow> totalVisitors (stats st) = 0) \<and>
   (data_files st Key = Some keys \<longrightarrow>
      activeKeys (stats st) =
        length (filter (\<lambda>r. r ''timeReturned'' \<in>
          {None, Some JNull, Some (JBool False), Some (JNumber ''0''), Some (JString [])}) keys) \<and>
      activeKeys (stats st) =
        card {i. i < length keys \<and> (keys ! i) ''timeReturned'' \<in>
          {None, Some JNull, Some (JBool False), Some (JNumber ''0''), Some (JString [])}}) \<and>
   (data_files st Key = None \<longrightarrow> activeKeys (stats st) = 0)"
proof -
  have f: "(\<lambda>r::jsobj. \<not> truthy (r ''timeReturned'')) =
      (\<lambda>r. r ''timeReturned'' \<in>
        {None, Some JNull, Some (JBool False), Some (JNumber ''0''), Some (JString [])})"
    by (rule ext) (rule falsy_values)
  have a: "activeKeys (stats st) =
      length (filter (\<lambda>r. r ''timeReturned'' \<in>
        {None, Some JNull, Some (JBool False), Some (JNumber ''0''), Some (JString [])})
        (loadRecords Key st))"
    by (simp only: stats_def Let_def loadKeys_def response.sel f)
  have t: "totalVisitors (stats st) = length (loadRecords Visitor st)"
    by (simp add: stats_def Let_def loadVisitors_def)
  show ?thesis
    using a t by (auto simp: loadRecords_def length_filter_conv_card)
qed

theorem stats_counts_witness:
  "data_files desk_3 Visitor =
     Some [stored_record Visitor day ann 1, stored_record Visitor day bob 2,
           stored_record Visitor day cyd 3] \<and>
   data_files desk_3 Key =
     Some [(stored_record Key day key_form 1)(''timeReturned'' \<mapsto> JString ''17:45''),
           stored_record Key day key_form 2] \<and>
   stored_record Key day key_form 2 ''timeReturned'' = None \<and>
   totalVisitors (stats desk_3) = 3 \<and>
   activeKeys (stats desk_3) = 1"
proof -
  have v: "data_files desk_3 Visitor =
     Some [stored_record Visitor day ann 1, stored_record Visitor day bob 2,
           stored_record Visitor day cyd 3]"
    by (simp add: desk_3_eq desk_2_eq desk_1_eq store_3_eq)
  have k: "data_files desk_3 Key =
     Some [(stored_record Key day key_form 1)(''timeReturned'' \<mapsto> JString ''17:45''),
           stored_record Key day key_form 2]"
    by (simp add: desk_3_eq)
  note t = stats_counts[where st = desk_3]
  from t[THEN conjunct1, THEN mp, OF v] have 1: "totalVisitors (stats desk_3) = 3" by simp
  from t[THEN conjunct2, THEN conjunct2, THEN conjunct1, THEN mp, OF k, THEN conjunct1]
  have 2: "activeKeys (stats desk_3) = 1" by (simp add: key_not_returned)
  from v k 1 2 key_not_returned[of 2] show ?thesis by blast
qed

text \<open>
  The counterexample to claim C9 as stated: after \<open>false\<close> has been recorded as the
  return time of the second key, both key records have a \<open>timeReturned\<close> value, none
  lacks one, and the handler reports one active key.
\<close>

theorem false_return_time_counts_as_active:
  "data_files desk_4 Key =
     Some [(stored_record Key day key_form 1)(''timeReturned'' \<mapsto> JString ''17:45''),
           (stored_record Key day key_form 2)(''timeReturned'' \<mapsto> JBool False)] \<and>
   lacking ''timeReturned'' (loadKeys desk_4) = 0 \<and>
   activeKeys (stats desk_4) = 1"
proof -
  have k: "data_files desk_4 Key =
     Some [(stored_record Key day key_form 1)(''timeReturned'' \<mapsto> JString ''17:45''),
           (stored_record Key day key_form 2)(''timeReturned'' \<mapsto> JBool False)]"
    by (simp add: desk_4_eq)
  have l: "lacking ''timeReturned'' (loadKeys desk_4) = 0"
    by (simp add: lacking_def loadKeys_def loadRecords_def k)
  have a: "activeKeys (stats desk_4) = 1"
    by (simp add: stats_def Let_def loadKeys_def loadRecords_def k truthy_def)
  from k l a show ?thesis by blast
qed

end
